theory Spec2Isabelle
  imports Complex_Main "HOL-Library.Char_ord" "HOL-Library.List_Lexorder" "HOL-Library.AList"
begin

section \<open>JavaScript values used by the page\<close>

text \<open>
  The dubbing page (the \<^verbatim>\<open>Page\<close> component with \<^verbatim>\<open>handleStart\<close> and the three
  service functions) is embedded below. Strings are byte lists; the default comparison
  of \<^verbatim>\<open>Array.prototype.sort\<close> orders strings by code units, which for the ASCII file
  names of the page is the lexicographic order of \<^typ>\<open>string\<close> over the character codes.

  A JavaScript \<^verbatim>\<open>number\<close> is \<^verbatim>\<open>NaN\<close>, an infinity or a finite double; every
  finite double is a rational, and the operations the page applies to numbers
  (\<^verbatim>\<open>Math.ceil\<close>, \<^verbatim>\<open>Math.min\<close>, the conversion inside \<^verbatim>\<open>slice\<close>) are exact on them.
\<close>

datatype jsnum = NaN | NegInfinity | Finite rat | PosInfinity

text \<open>\<^verbatim>\<open>Math.ceil\<close>.\<close>

fun Math_ceil :: "jsnum \<Rightarrow> jsnum" where
  "Math_ceil (Finite q) = Finite (of_int \<lceil>q\<rceil>)"
| "Math_ceil x = x"

text \<open>\<^verbatim>\<open>Math.min\<close> of two arguments: \<^verbatim>\<open>NaN\<close> when either is, else the lesser.\<close>

fun Math_min :: "jsnum \<Rightarrow> jsnum \<Rightarrow> jsnum" where
  "Math_min NaN y = NaN"
| "Math_min x NaN = NaN"
| "Math_min NegInfinity y = NegInfinity"
| "Math_min x NegInfinity = NegInfinity"
| "Math_min PosInfinity y = y"
| "Math_min x PosInfinity = x"
| "Math_min (Finite a) (Finite b) = Finite (min a b)"

text \<open>
  \<^verbatim>\<open>ToIntegerOrInfinity\<close>, the conversion \<^verbatim>\<open>slice\<close> applies to its bounds: \<^verbatim>\<open>NaN\<close>
  becomes 0, a finite number is truncated towards zero.
\<close>

datatype extint = MinusInf | Whole int | PlusInf

fun ToIntegerOrInfinity :: "jsnum \<Rightarrow> extint" where
  "ToIntegerOrInfinity NaN = Whole 0"
| "ToIntegerOrInfinity NegInfinity = MinusInf"
| "ToIntegerOrInfinity PosInfinity = PlusInf"
| "ToIntegerOrInfinity (Finite q) = Whole (if 0 \<le> q then \<lfloor>q\<rfloor> else \<lceil>q\<rceil>)"

text \<open>
  \<^verbatim>\<open>xs.slice(0, end)\<close>: a negative end counts from the end of the array, and the
  result is empty when the final index is not above 0.
\<close>

fun slice0 :: "'a list \<Rightarrow> jsnum \<Rightarrow> 'a list" where
  "slice0 xs e =
     (case ToIntegerOrInfinity e of
        MinusInf \<Rightarrow> []
      | PlusInf \<Rightarrow> xs
      | Whole k \<Rightarrow>
          (if k < 0 then take (nat (max (int (length xs) + k) 0)) xs
           else take (nat (min k (int (length xs)))) xs))"

text \<open>\<^verbatim>\<open>s.startsWith(p)\<close> and \<^verbatim>\<open>s.endsWith(p)\<close>.\<close>

definition startsWith :: "string \<Rightarrow> string \<Rightarrow> bool" where
  "startsWith s p = (take (length p) s = p)"

definition endsWith :: "string \<Rightarrow> string \<Rightarrow> bool" where
  "endsWith s p = (length p \<le> length s \<and> drop (length s - length p) s = p)"

text \<open>\<^verbatim>\<open>xs.join(sep)\<close> on an array of strings.\<close>

fun join :: "string \<Rightarrow> string list \<Rightarrow> string" where
  "join sep [] = []"
| "join sep [x] = x"
| "join sep (x # y # ys) = x @ sep @ join sep (y # ys)"

text \<open>
  The decimal rendering of a non-negative integer, as a template literal and the
  \<^verbatim>\<open>%d\<close> of a file name pattern print it.
\<close>

definition digitChar :: "nat \<Rightarrow> char" where
  "digitChar d = char_of (48 + d)"

function dec :: "nat \<Rightarrow> string" where
  "dec n = (if n < 10 then [digitChar n] else dec (n div 10) @ [digitChar (n mod 10)])"
  by pat_completeness auto
termination
  by (relation "measure (\<lambda>n. n)") auto

declare dec.simps [simp del]

text \<open>
  The segment muxer's pattern \<^verbatim>\<open>seg_%03d.wav\<close> (line 117): \<^verbatim>\<open>%03d\<close> pads the index
  with zeros to a width of at least three digits and prints a longer number in full.
\<close>

definition pad3 :: "string \<Rightarrow> string" where
  "pad3 s = replicate (3 - length s) (CHR ''0'') @ s"

definition segName :: "nat \<Rightarrow> string" where
  "segName i = ''seg_'' @ pad3 (dec i) @ ''.wav''"

text \<open>The filter and sort of the directory listing (line 121).\<close>

definition isSegment :: "string \<Rightarrow> bool" where
  "isSegment n = (startsWith n ''seg_'' \<and> endsWith n ''.wav'')"

definition segmentFiles :: "string list \<Rightarrow> string list" where
  "segmentFiles entries = sort (filter isSegment entries)"

text \<open>
  The duration cap (lines 125 and 126): \<^verbatim>\<open>maxSegments\<close> and \<^verbatim>\<open>usedSegments\<close>.
\<close>

definition maxSegments :: "string list \<Rightarrow> jsnum \<Rightarrow> jsnum" where
  "maxSegments files maxMinutes = Math_min (Finite (of_nat (length files))) (Math_ceil maxMinutes)"

definition usedSegments :: "string list \<Rightarrow> jsnum \<Rightarrow> string list" where
  "usedSegments files maxMinutes = slice0 files (maxSegments files maxMinutes)"

text \<open>
  \<^verbatim>\<open>parseInt(s)\<close> without a radix: leading white space is skipped, a sign is read, a
  \<^verbatim>\<open>0x\<close> prefix selects radix 16, and the longest run of digits is the value; no digit
  gives \<^verbatim>\<open>NaN\<close>. The value here is the integer the digits denote, which is the
  JavaScript result for every value below \<open>2 ^ 53\<close> (above, JavaScript rounds to the
  nearest double). White space is the ASCII part of the language's white space.
\<close>

definition isWhiteSpace :: "char \<Rightarrow> bool" where
  "isWhiteSpace c = (c \<in> set [CHR 0x09, CHR 0x0A, CHR 0x0B, CHR 0x0C, CHR 0x0D, CHR 0x20])"

definition digitValue :: "char \<Rightarrow> nat option" where
  "digitValue c =
     (let k = (of_char c :: nat) in
      if 48 \<le> k \<and> k \<le> 57 then Some (k - 48)
      else if 97 \<le> k \<and> k \<le> 102 then Some (k - 87)
      else if 65 \<le> k \<and> k \<le> 70 then Some (k - 55)
      else None)"

definition isDigitOf :: "nat \<Rightarrow> char \<Rightarrow> bool" where
  "isDigitOf radix c = (case digitValue c of None \<Rightarrow> False | Some d \<Rightarrow> d < radix)"

definition digitsValue :: "nat \<Rightarrow> string \<Rightarrow> nat" where
  "digitsValue radix ds =
     foldl (\<lambda>a c. a * radix + (case digitValue c of None \<Rightarrow> 0 | Some d \<Rightarrow> d)) 0 ds"

definition parseInt :: "string \<Rightarrow> jsnum" where
  "parseInt s =
     (let s1 = dropWhile isWhiteSpace s;
          neg = (s1 \<noteq> [] \<and> hd s1 = CHR ''-'');
          s2 = (if s1 \<noteq> [] \<and> (hd s1 = CHR ''-'' \<or> hd s1 = CHR ''+'') then tl s1 else s1);
          hex = (startsWith s2 ''0x'' \<or> startsWith s2 ''0X'');
          radix = (if hex then 16 else 10);
          s3 = (if hex then drop 2 s2 else s2);
          ds = takeWhile (isDigitOf radix) s3
      in if ds = [] then NaN
         else Finite (of_int ((if neg then - 1 else 1) * int (digitsValue radix ds))))"

text \<open>
  The \<^verbatim>\<open>maxMinutes\<close> state (line 53) and the change handler of its input field
  (line 249): \<^verbatim>\<open>setMaxMinutes(parseInt(e.target.value || "45"))\<close>. The \<^verbatim>\<open>min\<close> and
  \<^verbatim>\<open>max\<close> attributes of the field are not part of the handler.
\<close>

definition initialMaxMinutes :: jsnum where
  "initialMaxMinutes = Finite 45"

definition onChangeMaxMinutes :: "string \<Rightarrow> jsnum" where
  "onChangeMaxMinutes v = parseInt (if v = [] then ''45'' else v)"

text \<open>
  Values of type \<^verbatim>\<open>any\<close>, as \<^verbatim>\<open>res.json()\<close> returns them and as they flow through
  the service functions (the \<^verbatim>\<open>as string\<close> casts do nothing at run time).
\<close>

datatype jsval =
    JUndefined
  | JNull
  | JBool bool
  | JNum jsnum
  | JStr string
  | JArr "jsval list"
  | JObj "(string \<times> jsval) list"

definition nullish :: "jsval \<Rightarrow> bool" where
  "nullish v = (v = JUndefined \<or> v = JNull)"

text \<open>The falsy values are \<^verbatim>\<open>undefined\<close>, \<^verbatim>\<open>null\<close>, \<^verbatim>\<open>false\<close>, 0, \<^verbatim>\<open>NaN\<close> and the empty string.\<close>

fun truthy :: "jsval \<Rightarrow> bool" where
  "truthy JUndefined = False"
| "truthy JNull = False"
| "truthy (JBool b) = b"
| "truthy (JNum n) = (n \<noteq> NaN \<and> n \<noteq> Finite 0)"
| "truthy (JStr s) = (s \<noteq> [])"
| "truthy (JArr xs) = True"
| "truthy (JObj kv) = True"

text \<open>The operator \<^verbatim>\<open>||\<close>: the left operand when it is truthy, else the right one.\<close>

definition logicalOr :: "jsval \<Rightarrow> jsval \<Rightarrow> jsval" where
  "logicalOr a b = (if truthy a then a else b)"

text \<open>
  Reading a property of a value that is neither \<^verbatim>\<open>undefined\<close> nor \<^verbatim>\<open>null\<close>, for the
  names the page reads (\<^verbatim>\<open>text\<close>, \<^verbatim>\<open>choices\<close>, \<^verbatim>\<open>message\<close>, \<^verbatim>\<open>content\<close>): none of them
  is a property of an array, a string, a number or a boolean.
\<close>

fun member :: "jsval \<Rightarrow> string \<Rightarrow> jsval" where
  "member (JObj kv) name = (case map_of kv name of None \<Rightarrow> JUndefined | Some v \<Rightarrow> v)"
| "member v name = JUndefined"

text \<open>Reading element 0: of an array, an object (key \<^verbatim>\<open>"0"\<close>) or a string.\<close>

fun index0 :: "jsval \<Rightarrow> jsval" where
  "index0 (JArr xs) = (case xs of [] \<Rightarrow> JUndefined | x # _ \<Rightarrow> x)"
| "index0 (JObj kv) = (case map_of kv ''0'' of None \<Rightarrow> JUndefined | Some v \<Rightarrow> v)"
| "index0 (JStr s) = (case s of [] \<Rightarrow> JUndefined | c # _ \<Rightarrow> JStr [c])"
| "index0 v = JUndefined"

section \<open>The page: state, environment and errors\<close>

datatype VoicePreset = Alloy | Verse | Aria | Bright | Calypso | Lively | Sage | Soft

text \<open>The type \<^verbatim>\<open>Step\<close> (lines 32 to 42); it has no value for a failed run.\<close>

datatype Step =
    Idle
  | Preparing
  | Extracting
  | Segmenting
  | Transcribing
  | Translating
  | Synthesizing
  | Concatenating
  | Muxing
  | Done

text \<open>
  What a \<^verbatim>\<open>throw\<close> or a rejected promise carries: \<^verbatim>\<open>new Error(message)\<close> of the page
  itself, the \<^verbatim>\<open>TypeError\<close> of a property read on \<^verbatim>\<open>null\<close> or \<^verbatim>\<open>undefined\<close>, and the
  rejections of the collaborators (\<^verbatim>\<open>res.json()\<close>, \<^verbatim>\<open>fetch\<close>, the ffmpeg instance and its
  file system).
\<close>

datatype error =
    Error string
  | TypeError
  | JsonRejected
  | FetchRejected
  | FFmpegRejected
  | FSError

text \<open>The three requests the page sends, with the parts that vary.\<close>

datatype request =
    Transcription string string
  | ChatCompletion string string jsval
  | Speech string jsval VoicePreset

text \<open>A \<^verbatim>\<open>Response\<close>: its \<^verbatim>\<open>ok\<close> and \<^verbatim>\<open>status\<close>, and what \<^verbatim>\<open>json()\<close> and
  \<^verbatim>\<open>arrayBuffer()\<close> give (\<^verbatim>\<open>json()\<close> rejects when the body is not JSON).\<close>

record response =
  res_ok :: bool
  res_status :: nat
  res_json :: "jsval option"
  res_arrayBuffer :: string

text \<open>The in-memory file system of the ffmpeg instance: names with their contents.\<close>

type_synonym fs = "(string \<times> string) list"

record FFmpeg =
  loaded :: bool
  memfs :: fs

text \<open>
  \<^verbatim>\<open>ffmpegRef.current\<close> (line 55) and the constant \<^verbatim>\<open>ffmpeg\<close> of line 66,
  \<^verbatim>\<open>useMemo(() => ffmpegRef.current as FFmpeg, [])\<close>. The memo has no dependencies, so
  \<^verbatim>\<open>ffmpeg\<close> is the value \<^verbatim>\<open>ffmpegRef.current\<close> had when the memo was computed:
  \<^verbatim>\<open>null\<close> when no instance existed then. The page creates one instance at most, so
  there are three cases: no instance yet; an instance that \<^verbatim>\<open>ffmpeg\<close> does not refer to
  (\<^verbatim>\<open>ffmpeg\<close> is \<^verbatim>\<open>null\<close>); an instance that both refer to.
\<close>

datatype ffmpegState = NoInstance | Unbound FFmpeg | Bound FFmpeg

fun isBound :: "ffmpegState \<Rightarrow> bool" where
  "isBound (Bound inst) = True"
| "isBound other = False"

text \<open>The files of the instance, if there is one.\<close>

fun filesOf :: "ffmpegState \<Rightarrow> fs" where
  "filesOf NoInstance = []"
| "filesOf (Unbound inst) = memfs inst"
| "filesOf (Bound inst) = memfs inst"

text \<open>
  The state a run reads and writes. \<^verbatim>\<open>statusLog\<close>, \<^verbatim>\<open>requests\<close> and \<^verbatim>\<open>execs\<close> are
  histories kept for the statements below: every \<^verbatim>\<open>setStatus\<close>, every \<^verbatim>\<open>fetch\<close> with
  its answer (\<^verbatim>\<open>None\<close>: rejected), and every \<^verbatim>\<open>ffmpeg.exec\<close> with the file system it
  ran on, oldest first. The \<^verbatim>\<open>detail\<close> text
  and the \<^verbatim>\<open>progress\<close> percentage are display only and are left out.
\<close>

record page =
  status :: Step
  downloadUrl :: "string option"
  ffmpeg :: ffmpegState
  statusLog :: "Step list"
  requests :: "(request \<times> response option) list"
  execs :: "(string list \<times> fs) list"

text \<open>The values \<^verbatim>\<open>handleStart\<close> closes over.\<close>

record props =
  apiKey :: string
  videoFile :: "(string \<times> string) option"
  targetLang :: string
  voice :: VoicePreset
  maxMinutes :: jsnum

text \<open>
  The collaborators: whether \<^verbatim>\<open>load()\<close> resolves, what \<^verbatim>\<open>exec\<close> makes of the file
  system (\<^verbatim>\<open>None\<close>: the promise rejects), what the \<open>n\<close>-th \<^verbatim>\<open>fetch\<close> of the page
  answers (\<^verbatim>\<open>None\<close>: it rejects), and \<^verbatim>\<open>URL.createObjectURL\<close>.
\<close>

record env =
  load :: bool
  exec :: "string list \<Rightarrow> fs \<Rightarrow> fs option"
  fetch :: "nat \<Rightarrow> request \<Rightarrow> response option"
  createObjectURL :: "string \<Rightarrow> string"

text \<open>A step of a run returns a value or raises, and leaves a state either way.\<close>

type_synonym 'a run = "page \<Rightarrow> (error + 'a) \<times> page"

definition succeed :: "'a \<Rightarrow> 'a run" where
  "succeed a p = (Inr a, p)"

definition raise :: "error \<Rightarrow> 'a run" where
  "raise e p = (Inl e, p)"

definition andThen :: "'a run \<Rightarrow> ('a \<Rightarrow> 'b run) \<Rightarrow> 'b run" where
  "andThen m f p = (case m p of (Inl e, p') \<Rightarrow> (Inl e, p') | (Inr a, p') \<Rightarrow> f a p')"

text \<open>\<^verbatim>\<open>try { await m } catch {}\<close>.\<close>

definition attempt :: "'a run \<Rightarrow> unit run" where
  "attempt m p = (Inr (), snd (m p))"

definition setStatus :: "Step \<Rightarrow> unit run" where
  "setStatus s p = (Inr (), p\<lparr>status := s, statusLog := statusLog p @ [s]\<rparr>)"

definition setDownloadUrl :: "string option \<Rightarrow> unit run" where
  "setDownloadUrl u p = (Inr (), p\<lparr>downloadUrl := u\<rparr>)"

subsection \<open>The ffmpeg instance\<close>

definition writeFile :: "string \<Rightarrow> string \<Rightarrow> fs \<Rightarrow> error + unit \<times> fs" where
  "writeFile name data files = Inr ((), AList.update name data files)"

definition deleteFile :: "string \<Rightarrow> fs \<Rightarrow> error + unit \<times> fs" where
  "deleteFile name files =
     (case map_of files name of
        None \<Rightarrow> Inl FSError
      | Some _ \<Rightarrow> Inr ((), AList.delete name files))"

definition readFile :: "string \<Rightarrow> fs \<Rightarrow> error + string \<times> fs" where
  "readFile name files =
     (case map_of files name of None \<Rightarrow> Inl FSError | Some d \<Rightarrow> Inr (d, files))"

definition listDir :: "fs \<Rightarrow> error + string list \<times> fs" where
  "listDir files = Inr (remdups (map fst files), files)"

text \<open>
  A method call through the constant \<^verbatim>\<open>ffmpeg\<close>: a \<^verbatim>\<open>TypeError\<close> when it is \<^verbatim>\<open>null\<close>.
\<close>

definition viaFFmpeg :: "(fs \<Rightarrow> error + 'a \<times> fs) \<Rightarrow> 'a run" where
  "viaFFmpeg opn p =
     (case ffmpeg p of
        Bound inst \<Rightarrow>
          (case opn (memfs inst) of
             Inl e \<Rightarrow> (Inl e, p)
           | Inr (a, files') \<Rightarrow> (Inr a, p\<lparr>ffmpeg := Bound (inst\<lparr>memfs := files'\<rparr>)\<rparr>))
      | _ \<Rightarrow> (Inl TypeError, p))"

definition ffmpegExec :: "env \<Rightarrow> string list \<Rightarrow> unit run" where
  "ffmpegExec E args p =
     (case ffmpeg p of
        Bound inst \<Rightarrow>
          (let p' = p\<lparr>execs := execs p @ [(args, memfs inst)]\<rparr> in
           case exec E args (memfs inst) of
             None \<Rightarrow> (Inl FFmpegRejected, p')
           | Some files' \<Rightarrow> (Inr (), p'\<lparr>ffmpeg := Bound (inst\<lparr>memfs := files'\<rparr>)\<rparr>))
      | _ \<Rightarrow> (Inl TypeError, p))"

text \<open>
  The two halves of such a call, result and instance afterwards, as functions of the
  instance before; the proofs below follow a run through them.
\<close>

definition callResult :: "(fs \<Rightarrow> error + 'a \<times> fs) \<Rightarrow> ffmpegState \<Rightarrow> error + 'a" where
  "callResult opn s =
     (case s of
        Bound inst \<Rightarrow> (case opn (memfs inst) of Inl e \<Rightarrow> Inl e | Inr (a, files') \<Rightarrow> Inr a)
      | _ \<Rightarrow> Inl TypeError)"

definition callState :: "(fs \<Rightarrow> error + 'a \<times> fs) \<Rightarrow> ffmpegState \<Rightarrow> ffmpegState" where
  "callState opn s =
     (case s of
        Bound inst \<Rightarrow>
          (case opn (memfs inst) of Inl e \<Rightarrow> s | Inr (a, files') \<Rightarrow> Bound (inst\<lparr>memfs := files'\<rparr>))
      | _ \<Rightarrow> s)"

definition execResult :: "env \<Rightarrow> string list \<Rightarrow> ffmpegState \<Rightarrow> error + unit" where
  "execResult E args s =
     (case s of
        Bound inst \<Rightarrow> (case exec E args (memfs inst) of None \<Rightarrow> Inl FFmpegRejected | Some _ \<Rightarrow> Inr ())
      | _ \<Rightarrow> Inl TypeError)"

definition execState :: "env \<Rightarrow> string list \<Rightarrow> ffmpegState \<Rightarrow> ffmpegState" where
  "execState E args s =
     (case s of
        Bound inst \<Rightarrow>
          (case exec E args (memfs inst) of None \<Rightarrow> s | Some files' \<Rightarrow> Bound (inst\<lparr>memfs := files'\<rparr>))
      | _ \<Rightarrow> s)"

definition execEntry :: "string list \<Rightarrow> ffmpegState \<Rightarrow> (string list \<times> fs) list" where
  "execEntry args s = (case s of Bound inst \<Rightarrow> [(args, memfs inst)] | _ \<Rightarrow> [])"

text \<open>\<^verbatim>\<open>ensureFFmpeg\<close> (lines 68 to 84). A new instance is not loaded and holds no file.\<close>

definition loadInstance :: "env \<Rightarrow> FFmpeg \<Rightarrow> (FFmpeg \<Rightarrow> ffmpegState) \<Rightarrow> unit run" where
  "loadInstance E inst ref p =
     (if load E then (Inr (), p\<lparr>ffmpeg := ref (inst\<lparr>loaded := True\<rparr>)\<rparr>)
      else (Inl FFmpegRejected, p\<lparr>ffmpeg := ref inst\<rparr>))"

definition ensureFFmpeg :: "env \<Rightarrow> unit run" where
  "ensureFFmpeg E p =
     (case ffmpeg p of
        NoInstance \<Rightarrow>
          andThen (setStatus Preparing)
            (\<lambda>_. loadInstance E \<lparr>loaded = False, memfs = []\<rparr> Unbound) p
      | Unbound inst \<Rightarrow>
          (if \<not> loaded inst then loadInstance E inst Unbound p else (Inr (), p))
      | Bound inst \<Rightarrow>
          (if \<not> loaded inst then loadInstance E inst Bound p else (Inr (), p)))"

section \<open>The service functions\<close>

text \<open>One \<^verbatim>\<open>fetch\<close>: the request is recorded, and the environment answers or rejects.\<close>

definition doFetch :: "env \<Rightarrow> request \<Rightarrow> response run" where
  "doFetch E req p =
     (let answer = fetch E (length (requests p)) req in
      (case answer of None \<Rightarrow> Inl FetchRejected | Some res \<Rightarrow> Inr res,
       p\<lparr>requests := requests p @ [(req, answer)]\<rparr>))"

definition resJson :: "response \<Rightarrow> jsval run" where
  "resJson res = (case res_json res of None \<Rightarrow> raise JsonRejected | Some data \<Rightarrow> succeed data)"

text \<open>\<^verbatim>\<open>v.name\<close>: a \<^verbatim>\<open>TypeError\<close> on \<^verbatim>\<open>undefined\<close> and \<^verbatim>\<open>null\<close>.\<close>

definition getProp :: "jsval \<Rightarrow> string \<Rightarrow> jsval run" where
  "getProp v name = (if nullish v then raise TypeError else succeed (member v name))"

text \<open>\<^verbatim>\<open>transcribeWithOpenAI\<close> (lines 277 to 292).\<close>

definition transcribeWithOpenAI :: "env \<Rightarrow> string \<Rightarrow> string \<Rightarrow> jsval run" where
  "transcribeWithOpenAI E key audio =
     andThen (doFetch E (Transcription key audio)) (\<lambda>res.
       if \<not> res_ok res then raise (Error (''Transcription failed: '' @ dec (res_status res)))
       else andThen (resJson res) (\<lambda>data. getProp data ''text''))"

text \<open>
  The optional chain \<^verbatim>\<open>choices?.[0]?.message?.content\<close> of line 313: the first
  \<^verbatim>\<open>undefined\<close> or \<^verbatim>\<open>null\<close> link makes the whole chain \<^verbatim>\<open>undefined\<close>.
\<close>

definition contentOf :: "jsval \<Rightarrow> jsval" where
  "contentOf choices =
     (if nullish choices then JUndefined
      else let first = index0 choices in
        if nullish first then JUndefined
        else let message = member first ''message'' in
          if nullish message then JUndefined
          else member message ''content'')"

definition systemPrompt :: "string \<Rightarrow> string" where
  "systemPrompt lang =
     ''You are a professional media translator. Translate the user'' @ [CHR 0x27]
     @ ''s text to '' @ lang
     @ '' for voice dubbing. Keep meaning and tone. Do not add extra commentary. Output only the translation.''"

text \<open>\<^verbatim>\<open>translateWithOpenAI\<close> (lines 294 to 314).\<close>

definition translateWithOpenAI :: "env \<Rightarrow> string \<Rightarrow> jsval \<Rightarrow> string \<Rightarrow> jsval run" where
  "translateWithOpenAI E key txt lang =
     andThen (doFetch E (ChatCompletion key (systemPrompt lang) txt)) (\<lambda>res.
       if \<not> res_ok res then raise (Error (''Translation failed: '' @ dec (res_status res)))
       else andThen (resJson res) (\<lambda>data.
         andThen (getProp data ''choices'') (\<lambda>choices.
           succeed (logicalOr (contentOf choices) (JStr [])))))"

text \<open>\<^verbatim>\<open>ttsWithOpenAI\<close> (lines 316 to 333).\<close>

definition ttsWithOpenAI :: "env \<Rightarrow> string \<Rightarrow> jsval \<Rightarrow> VoicePreset \<Rightarrow> string run" where
  "ttsWithOpenAI E key txt v =
     andThen (doFetch E (Speech key txt v)) (\<lambda>res.
       if \<not> res_ok res then raise (Error (''TTS failed: '' @ dec (res_status res)))
       else succeed (res_arrayBuffer res))"

text \<open>
  The message prefix each service function puts before the status (lines 289, 311 and
  330), by the request it sent.
\<close>

text \<open>A logged call that was answered, and not with success.\<close>

definition nonSuccess :: "request \<times> response option \<Rightarrow> bool" where
  "nonSuccess c = (case snd c of None \<Rightarrow> False | Some res \<Rightarrow> \<not> res_ok res)"

fun failMessage :: "request \<Rightarrow> string" where
  "failMessage (Transcription k a) = ''Transcription failed: ''"
| "failMessage (ChatCompletion k s t) = ''Translation failed: ''"
| "failMessage (Speech k t v) = ''TTS failed: ''"

section \<open>The run: \<^verbatim>\<open>handleStart\<close>\<close>

text \<open>
  Lines 140 to 148 of the loop: the three service calls for the data of one segment,
  \<^verbatim>\<open>transcribe -> translate -> TTS\<close>. The result is the body of the speech answer.
\<close>

definition transcribeTranslateTTS :: "env \<Rightarrow> props \<Rightarrow> string \<Rightarrow> string run" where
  "transcribeTranslateTTS E pr segData =
     andThen (transcribeWithOpenAI E (apiKey pr) segData) (\<lambda>transcript.
     andThen (translateWithOpenAI E (apiKey pr) transcript (targetLang pr)) (\<lambda>translated.
     ttsWithOpenAI E (apiKey pr) translated (voice pr)))"

text \<open>The body of the loop of lines 133 to 156, for one segment; it returns \<^verbatim>\<open>outName\<close>.\<close>

definition dubSegment :: "env \<Rightarrow> props \<Rightarrow> string \<Rightarrow> string run" where
  "dubSegment E pr seg =
     andThen (viaFFmpeg (readFile seg)) (\<lambda>segData.
     andThen (transcribeTranslateTTS E pr segData) (\<lambda>ttsWav.
     andThen (attempt (viaFFmpeg (deleteFile (''tts_'' @ seg)))) (\<lambda>_.
     andThen (viaFFmpeg (writeFile (''tts_'' @ seg) ttsWav)) (\<lambda>_.
     succeed (''tts_'' @ seg)))))"

text \<open>
  The loop itself, over the segments still to do, with \<^verbatim>\<open>dubbedSegmentNames\<close> as built
  so far.
\<close>

fun processSegments :: "env \<Rightarrow> props \<Rightarrow> string list \<Rightarrow> string list \<Rightarrow> string list run" where
  "processSegments E pr [] dubbedSegmentNames p = (Inr dubbedSegmentNames, p)"
| "processSegments E pr (seg # rest) dubbedSegmentNames p =
     (case dubSegment E pr seg p of
        (Inl e, p') \<Rightarrow> (Inl e, p')
      | (Inr outName, p') \<Rightarrow> processSegments E pr rest (dubbedSegmentNames @ [outName]) p')"

definition inputName :: "string \<Rightarrow> string" where
  "inputName name = (if endsWith name ''.webm'' then ''input.webm'' else ''input.mp4'')"

definition extractArgs :: "string \<Rightarrow> string list" where
  "extractArgs inp = [''-i'', inp, ''-vn'', ''-ac'', ''1'', ''-ar'', ''16000'', ''audio.wav'']"

definition segmentArgs :: "string list" where
  "segmentArgs =
     [''-i'', ''audio.wav'', ''-f'', ''segment'', ''-segment_time'', ''60'', ''-c'', ''copy'',
      ''seg_%03d.wav'']"

definition concatArgs :: "string list" where
  "concatArgs =
     [''-f'', ''concat'', ''-safe'', ''0'', ''-i'', ''concat.txt'', ''-c'', ''copy'', ''dubbed.wav'']"

definition muxArgs :: "string \<Rightarrow> string list" where
  "muxArgs inp =
     [''-i'', inp, ''-i'', ''dubbed.wav'', ''-map'', ''0:v:0'', ''-map'', ''1:a:0'',
      ''-c:v'', ''libvpx'', ''-crf'', ''32'', ''-b:v'', ''0'', ''-c:a'', ''libopus'',
      ''-shortest'', ''output.webm'']"

text \<open>
  Lines 97 to 99, under the comment \<^verbatim>\<open>// Reset FS\<close>: two calls of \<^verbatim>\<open>deleteFile\<close>,
  each in a \<^verbatim>\<open>try\<close> with an empty \<^verbatim>\<open>catch\<close>.
\<close>

definition resetFS :: "unit run" where
  "resetFS =
     andThen (attempt (viaFFmpeg (deleteFile ''input.mp4''))) (\<lambda>_.
     attempt (viaFFmpeg (deleteFile ''audio.wav'')))"


text \<open>
  Lines 91 to 121: the checks, the reset, extraction, segmentation and the listing. The
  result is \<^verbatim>\<open>inputName\<close> and \<^verbatim>\<open>files\<close>.
\<close>

definition handleStart_segment :: "env \<Rightarrow> props \<Rightarrow> (string \<times> string list) run" where
  "handleStart_segment E pr =
     andThen (setDownloadUrl None) (\<lambda>_.
     if apiKey pr = [] then raise (Error ''Missing OpenAI API key'')
     else case videoFile pr of
       None \<Rightarrow> raise (Error ''No video uploaded'')
     | Some (name, content) \<Rightarrow>
         andThen (ensureFFmpeg E) (\<lambda>_.
         andThen resetFS (\<lambda>_.
         andThen (setStatus Extracting) (\<lambda>_.
         andThen (viaFFmpeg (writeFile (inputName name) content)) (\<lambda>_.
         andThen (ffmpegExec E (extractArgs (inputName name))) (\<lambda>_.
         andThen (setStatus Segmenting) (\<lambda>_.
         andThen (attempt (viaFFmpeg (deleteFile ''segments.txt''))) (\<lambda>_.
         andThen (ffmpegExec E segmentArgs) (\<lambda>_.
         andThen (viaFFmpeg listDir) (\<lambda>entries.
         succeed (inputName name, segmentFiles entries)))))))))))"

text \<open>Lines 122 to 156: the check for segments, the cap and the loop.\<close>

definition handleStart_dub :: "env \<Rightarrow> props \<Rightarrow> string list \<Rightarrow> string list run" where
  "handleStart_dub E pr files =
     (if files = [] then raise (Error ''No segments produced'')
      else andThen (setStatus Transcribing) (\<lambda>_.
           processSegments E pr (usedSegments files (maxMinutes pr)) []))"

text \<open>The content of \<^verbatim>\<open>concat.txt\<close> (line 163).\<close>

definition listContent :: "string list \<Rightarrow> string" where
  "listContent dubbedSegmentNames =
     join [CHR 0x0A] (map (\<lambda>n. ''file '' @ [CHR 0x27] @ n @ [CHR 0x27]) dubbedSegmentNames)"

text \<open>Lines 158 to 194: concatenation, muxing and the download handle.\<close>

definition handleStart_mux :: "env \<Rightarrow> string \<Rightarrow> string list \<Rightarrow> unit run" where
  "handleStart_mux E inp dubbedSegmentNames =
     andThen (setStatus Concatenating) (\<lambda>_.
     andThen (viaFFmpeg (writeFile ''concat.txt'' (listContent dubbedSegmentNames))) (\<lambda>_.
     andThen (ffmpegExec E concatArgs) (\<lambda>_.
     andThen (setStatus Muxing) (\<lambda>_.
     andThen (attempt (viaFFmpeg (deleteFile ''output.webm''))) (\<lambda>_.
     andThen (ffmpegExec E (muxArgs inp)) (\<lambda>_.
     andThen (viaFFmpeg (readFile ''output.webm'')) (\<lambda>outData.
     andThen (setDownloadUrl (Some (createObjectURL E outData))) (\<lambda>_.
     setStatus Done))))))))"

text \<open>\<^verbatim>\<open>handleStart\<close> (lines 90 to 195).\<close>

definition handleStart :: "env \<Rightarrow> props \<Rightarrow> unit run" where
  "handleStart E pr =
     andThen (handleStart_segment E pr) (\<lambda>(inp, files).
     andThen (handleStart_dub E pr files) (\<lambda>dubbedSegmentNames.
     handleStart_mux E inp dubbedSegmentNames))"

text \<open>
  The values of \<^verbatim>\<open>Step\<close> that \<^verbatim>\<open>handleStart\<close> and \<^verbatim>\<open>ensureFFmpeg\<close> set, in the order
  of the code; \<^verbatim>\<open>preparing\<close> is set only when no instance exists yet (line 69).
\<close>

definition stages :: "Step list" where
  "stages = [Preparing, Extracting, Segmenting, Transcribing, Concatenating, Muxing, Done]"

definition runStages :: "page \<Rightarrow> Step list" where
  "runStages p = (if ffmpeg p = NoInstance then stages else tl stages)"

text \<open>The page as first rendered (lines 45 to 55).\<close>

definition initialPage :: page where
  "initialPage =
     \<lparr>status = Idle, downloadUrl = None, ffmpeg = NoInstance, statusLog = [], requests = [],
      execs = []\<rparr>"

text \<open>
  The page after a sequence of runs, each with the collaborators and the values it found.
\<close>

fun runs :: "(env \<times> props) list \<Rightarrow> page \<Rightarrow> page" where
  "runs [] p = p"
| "runs ((E, pr) # rest) p = runs rest (snd (handleStart E pr p))"

section \<open>A small environment for concrete runs\<close>

text \<open>
  An engine that copies the input to \<^verbatim>\<open>audio.wav\<close>, cuts \<^verbatim>\<open>audio.wav\<close> into one
  segment per byte under the names of the pattern, and writes fixed contents for the
  dubbed track and the output; services that answer 200 and echo their input, the speech
  service with \<^verbatim>\<open>wav:\<close> before it.
\<close>

definition demoExec :: "string list \<Rightarrow> fs \<Rightarrow> fs option" where
  "demoExec args files =
     (if ''-vn'' \<in> set args then
        (case map_of files (args ! 1) of
           None \<Rightarrow> Some files
         | Some d \<Rightarrow> Some (AList.update ''audio.wav'' d files))
      else if ''segment'' \<in> set args then
        (case map_of files ''audio.wav'' of
           None \<Rightarrow> Some files
         | Some d \<Rightarrow> Some (fold (\<lambda>(i, c). AList.update (segName i) [c]) (enumerate 0 d) files))
      else if ''concat'' \<in> set args then Some (AList.update ''dubbed.wav'' ''DUB'' files)
      else Some (AList.update ''output.webm'' ''OUT'' files))"

definition okResponse :: "jsval option \<Rightarrow> string \<Rightarrow> response" where
  "okResponse j b = \<lparr>res_ok = True, res_status = 200, res_json = j, res_arrayBuffer = b\<rparr>"

definition demoFetch :: "nat \<Rightarrow> request \<Rightarrow> response option" where
  "demoFetch n req =
     (case req of
        Transcription k a \<Rightarrow> Some (okResponse (Some (JObj [(''text'', JStr a)])) [])
      | ChatCompletion k s t \<Rightarrow>
          Some (okResponse
            (Some (JObj [(''choices'', JArr [JObj [(''message'', JObj [(''content'', t)])]])])) [])
      | Speech k t v \<Rightarrow> Some (okResponse None (''wav:'' @ (case t of JStr s \<Rightarrow> s | _ \<Rightarrow> []))))"

definition demoEnv :: env where
  "demoEnv = \<lparr>load = True, exec = demoExec, fetch = demoFetch, createObjectURL = (\<lambda>d. ''blob:'' @ d)\<rparr>"

definition demoProps :: props where
  "demoProps =
     \<lparr>apiKey = ''sk'', videoFile = Some (''clip.mp4'', ''ab''), targetLang = ''es'',
      voice = Alloy, maxMinutes = Finite 45\<rparr>"

definition loadedPage :: "fs \<Rightarrow> page" where
  "loadedPage files = initialPage\<lparr>ffmpeg := Bound \<lparr>loaded = True, memfs = files\<rparr>\<rparr>"

text \<open>
  Variations: a transcription service that answers 401 to the seventh request of the page
  (the transcription of the third segment), a translation service whose answers have no
  \<^verbatim>\<open>choices\<close>, an engine that cannot be loaded, a video without sound, a working area
  that holds ten segment files, and a video of five segments.
\<close>

definition unauthorized :: response where
  "unauthorized = \<lparr>res_ok = False, res_status = 401, res_json = None, res_arrayBuffer = []\<rparr>"

definition failingEnv :: env where
  "failingEnv = demoEnv\<lparr>fetch := (\<lambda>n req. if n = 6 then Some unauthorized else demoFetch n req)\<rparr>"

definition noContentFetch :: "nat \<Rightarrow> request \<Rightarrow> response option" where
  "noContentFetch n req =
     (case req of
        ChatCompletion k s t \<Rightarrow> Some (okResponse (Some (JObj [])) [])
      | _ \<Rightarrow> demoFetch n req)"

definition noContentEnv :: env where
  "noContentEnv = demoEnv\<lparr>fetch := noContentFetch\<rparr>"

definition noLoadEnv :: env where
  "noLoadEnv = demoEnv\<lparr>load := False\<rparr>"

definition silentProps :: props where
  "silentProps = demoProps\<lparr>videoFile := Some (''clip.mp4'', [])\<rparr>"

definition tenSegments :: fs where
  "tenSegments = map (\<lambda>i. (segName i, ''x'')) [0..<10]"

definition fiveProps :: props where
  "fiveProps = demoProps\<lparr>videoFile := Some (''clip.mp4'', ''abcde'')\<rparr>"

text \<open>
  A translation service that answers 200 with the body \<^verbatim>\<open>null\<close>, one that answers 200
  with a body that is not JSON, and a working area as a run on a video of two segments
  leaves it.
\<close>

definition nullBodyEnv :: env where
  "nullBodyEnv =
     demoEnv\<lparr>fetch := (\<lambda>n req. case req of
        ChatCompletion k s t \<Rightarrow> Some (okResponse (Some JNull) [])
      | _ \<Rightarrow> demoFetch n req)\<rparr>"

definition noJsonEnv :: env where
  "noJsonEnv =
     demoEnv\<lparr>fetch := (\<lambda>n req. case req of
        ChatCompletion k s t \<Rightarrow> Some (okResponse None [])
      | _ \<Rightarrow> demoFetch n req)\<rparr>"

definition usedArea :: fs where
  "usedArea =
     [(''input.mp4'', ''ab''), (''audio.wav'', ''ab''), (''seg_000.wav'', ''a''),
      (''seg_001.wav'', ''b''), (''tts_seg_000.wav'', ''wav:a''),
      (''tts_seg_001.wav'', ''wav:b''),
      (''concat.txt'', listContent [''tts_seg_000.wav'', ''tts_seg_001.wav'']),
      (''dubbed.wav'', ''DUB''), (''output.webm'', ''OUT'')]"

section \<open>File names and their order\<close>

lemma digitChar_less: "d < 10 \<Longrightarrow> e < 10 \<Longrightarrow> (digitChar d < digitChar e) = (d < e)"
  by (simp add: digitChar_def less_char_def)

lemma dec_digit: "n < 10 \<Longrightarrow> dec n = [digitChar n]"
  by (simp add: dec.simps)

lemma dec_two: "10 \<le> n \<Longrightarrow> n < 100 \<Longrightarrow> dec n = [digitChar (n div 10), digitChar (n mod 10)]"
  by (subst dec.simps) (simp add: dec_digit)

lemma dec_three: "100 \<le> n \<Longrightarrow> n < 1000 \<Longrightarrow> dec n = [digitChar (n div 100), digitChar (n div 10 mod 10), digitChar (n mod 10)]"
  by (subst dec.simps) (simp add: dec_two div_mult2_eq[symmetric])

lemma replicate_two: "replicate 2 c = [c, c]"
  by (simp add: numeral_eq_Suc)

lemma digitChar_0: "digitChar 0 = CHR ''0''"
  by code_simp

lemma pad3_dec: 
  assumes "i < 1000" 
  shows "pad3 (dec i) = [digitChar (i div 100), digitChar (i div 10 mod 10), digitChar (i mod 10)]"
proof -
  consider "i < 10" | "10 \<le> i" "i < 100" | "100 \<le> i" using assms by linarith
  then show ?thesis
  proof cases
    case 1
    then show ?thesis by (simp add: dec_digit pad3_def digitChar_0 replicate_two)
  next
    case 2
    then show ?thesis by (simp add: dec_two pad3_def digitChar_0)
  next
    case 3
    then show ?thesis using assms by (simp add: dec_three pad3_def)
  qed
qed

lemma div_mod_lex:
  fixes x y :: nat
  assumes "x < y"
  shows "x div 10 < y div 10 \<or> (x div 10 = y div 10 \<and> x mod 10 < y mod 10)"
proof -
  have "x = 10 * (x div 10) + x mod 10" "y = 10 * (y div 10) + y mod 10" by simp_all
  moreover have "x mod 10 < 10" "y mod 10 < 10" by simp_all
  ultimately show ?thesis using assms by linarith
qed

lemma digits_lex:
  fixes i j :: nat
  assumes "i < j"
  shows "i div 100 < j div 100 \<or> (i div 100 = j div 100 \<and> (i div 10 mod 10 < j div 10 mod 10 \<or> (i div 10 mod 10 = j div 10 mod 10 \<and> i mod 10 < j mod 10)))"
proof -
  have h: "i div 100 = i div 10 div 10" "j div 100 = j div 10 div 10"
    by (simp_all add: div_mult2_eq[symmetric])
  from div_mod_lex[OF assms] show ?thesis
  proof
    assume "i div 10 < j div 10"
    from div_mod_lex[OF this] show ?thesis unfolding h by blast
  next
    assume "i div 10 = j div 10 \<and> i mod 10 < j mod 10"
    then show ?thesis unfolding h by simp
  qed
qed

lemma segName_less:
  assumes "i < j" "j < 1000"
  shows "segName i < segName j"
proof -
  have i: "i < 1000" using assms by simp
  have b: "i div 100 < 10" "j div 100 < 10" "i div 10 mod 10 < 10" "j div 10 mod 10 < 10" "i mod 10 < 10" "j mod 10 < 10"
    using assms by auto
  show ?thesis
    using digits_lex[OF assms(1)] b
    by (auto simp: segName_def pad3_dec[OF i] pad3_dec[OF assms(2)] digitChar_less)
qed

lemma sorted_segNames: "T \<le> 1000 \<Longrightarrow> sorted (map segName [0..<T])"
proof -
  assume T: "T \<le> 1000"
  have "map segName [0..<T] ! i \<le> map segName [0..<T] ! j" if "i < j" "j < length (map segName [0..<T])" for i j
  proof -
    have "segName i < segName j" using that T by (intro segName_less) simp_all
    then show ?thesis using that by simp
  qed
  then show ?thesis unfolding sorted_iff_nth_mono_less by blast
qed

lemma distinct_segNames: "T \<le> 1000 \<Longrightarrow> distinct (map segName [0..<T])"
proof -
  have "inj_on segName {..<1000}"
  proof (rule inj_onI)
    fix x y assume "x \<in> {..<1000}" "y \<in> {..<1000}" "segName x = segName y"
    then show "x = y"
      using segName_less[of x y] segName_less[of y x] by (cases x y rule: linorder_cases) auto
  qed
  then have "inj_on segName (set [0..<T])" if "T \<le> 1000"
    using that by (auto intro: inj_on_subset)
  then show "T \<le> 1000 \<Longrightarrow> distinct (map segName [0..<T])"
    by (simp add: distinct_map)
qed

lemma sorted_map_upt_le:
  assumes "sorted (map f [0..<n])" "i \<le> j" "j < n"
  shows "f i \<le> f j"
proof -
  have "map f [0..<n] ! i \<le> map f [0..<n] ! j"
    using assms by (intro sorted_nth_mono) simp_all
  then show ?thesis using assms by simp
qed

text \<open>
  C8, as amended. For every number \<open>T\<close> of segments up to 1000, whatever the order of
  the directory listing and whatever other files it holds: when the segment files in
  the listing are exactly the names the pattern gives to the indices below \<open>T\<close>, the
  filter and sort of line 121 return them in the order of their indices.
\<close>

theorem segmentFiles_numeric_order:
  assumes T: "T \<le> 1000" and d: "distinct entries"
    and s: "set (filter isSegment entries) = set (map segName [0..<T])"
  shows "segmentFiles entries = map segName [0..<T]"
proof -
  have "set (sort (filter isSegment entries)) = set (map segName [0..<T])"
    using s by simp
  moreover have "distinct (sort (filter isSegment entries))" using d by simp
  ultimately show ?thesis
    unfolding segmentFiles_def
    using sorted_segNames[OF T] distinct_segNames[OF T]
    by (intro sorted_distinct_set_unique) simp_all
qed

theorem segmentFiles_numeric_order_witness:
  "segmentFiles [''seg_002.wav'', ''input.mp4'', ''seg_000.wav'', ''audio.wav'', ''seg_001.wav'']
     = [''seg_000.wav'', ''seg_001.wav'', ''seg_002.wav'']"
proof -
  have "(3::nat) \<le> 1000" by simp
  moreover have "distinct [''seg_002.wav'', ''input.mp4'', ''seg_000.wav'', ''audio.wav'', ''seg_001.wav'']"
    by simp
  moreover have "set (filter isSegment
       [''seg_002.wav'', ''input.mp4'', ''seg_000.wav'', ''audio.wav'', ''seg_001.wav''])
     = set (map segName [0..<3])"
    by code_simp
  ultimately have "segmentFiles
       [''seg_002.wav'', ''input.mp4'', ''seg_000.wav'', ''audio.wav'', ''seg_001.wav'']
     = map segName [0..<3]"
    by (rule segmentFiles_numeric_order)
  moreover have "map segName [0..<3] = [''seg_000.wav'', ''seg_001.wav'', ''seg_002.wav'']"
    by code_simp
  ultimately show ?thesis by simp
qed

text \<open>
  C8 as stated fails from 1001 segments on: index 1000 is printed with four digits, and
  \<^verbatim>\<open>seg_1000.wav\<close> sorts before \<^verbatim>\<open>seg_101.wav\<close>. The listing of the segments 0 to 1000
  in the order of their indices is not what the sort returns.
\<close>

theorem segmentFiles_order_counterexample:
  "segmentFiles (map segName [0..<1001]) \<noteq> map segName [0..<1001]"
proof
  assume "segmentFiles (map segName [0..<1001]) = map segName [0..<1001]"
  moreover have "sorted (segmentFiles (map segName [0..<1001]))"
    by (simp add: segmentFiles_def)
  ultimately have "sorted (map segName [0..<1001])" by simp
  then have "segName 101 \<le> segName 1000"
    by (rule sorted_map_upt_le) (simp only: , simp only: )
  then show False by code_simp
qed

section \<open>The \<^verbatim>\<open>maxMinutes\<close> field\<close>

text \<open>
  C9 on the code. The change handler stores what \<^verbatim>\<open>parseInt\<close> returns: an empty field
  gives the default 45, and a typed 500, 0 or \<open>- 2\<close> is stored as it is, outside the range
  1 to 300 that the field declares; a text without leading digits gives \<^verbatim>\<open>NaN\<close>.
\<close>

theorem onChangeMaxMinutes_unclamped:
  "initialMaxMinutes = Finite 45
   \<and> onChangeMaxMinutes [] = Finite 45
   \<and> onChangeMaxMinutes ''500'' = Finite 500
   \<and> onChangeMaxMinutes ''0'' = Finite 0
   \<and> onChangeMaxMinutes ''-2'' = Finite (- 2)
   \<and> onChangeMaxMinutes ''.5'' = NaN"
  by code_simp

section \<open>Following a run\<close>

text \<open>
  The facts below follow \<^verbatim>\<open>handleStart\<close> through its three parts: what each part does to
  the status, the download handle, the log of requests and the files, on every path.
\<close>

lemmas prim_defs = andThen_def succeed_def raise_def attempt_def setStatus_def setDownloadUrl_def
  viaFFmpeg_def ffmpegExec_def writeFile_def deleteFile_def readFile_def listDir_def Let_def

lemmas svc_defs = transcribeTranslateTTS_def transcribeWithOpenAI_def translateWithOpenAI_def
  ttsWithOpenAI_def doFetch_def resJson_def getProp_def

lemma dubSegment_unbound:
  "\<not> isBound (ffmpeg p) \<Longrightarrow> dubSegment E pr seg p = (Inl TypeError, p)"
  by (cases "ffmpeg p") (simp_all add: dubSegment_def prim_defs)

lemma dubSegment_frame:
  assumes "dubSegment E pr seg p = (r, p')"
  shows "status p' = status p \<and> statusLog p' = statusLog p \<and> downloadUrl p' = downloadUrl p
      \<and> execs p' = execs p \<and> isBound (ffmpeg p') = isBound (ffmpeg p)"
proof (cases "ffmpeg p")
  case (Bound inst)
  then show ?thesis using assms
    by (auto simp: dubSegment_def prim_defs svc_defs split: option.splits if_splits)
qed (use assms in \<open>simp_all add: dubSegment_def prim_defs\<close>)

lemma dubSegment_success:
  assumes "dubSegment E pr seg p = (Inr out, p')"
  shows "out = ''tts_'' @ seg \<and> isBound (ffmpeg p) \<and> isBound (ffmpeg p')
     \<and> length (requests p') = length (requests p) + 3
     \<and> dom (map_of (filesOf (ffmpeg p'))) = insert (''tts_'' @ seg) (dom (map_of (filesOf (ffmpeg p))))"
proof (cases "ffmpeg p")
  case (Bound inst)
  then show ?thesis using assms
    by (auto simp: dubSegment_def prim_defs svc_defs update_conv' delete_conv' split: option.splits if_splits)
qed (use assms in \<open>simp_all add: dubSegment_def prim_defs\<close>)

lemma dubSegment_requests:
  assumes "dubSegment E pr seg p = (r, p')"
  shows "\<exists>new. requests p' = requests p @ new \<and> (\<forall>c \<in> set (butlast new). \<not> nonSuccess c) \<and>
     (\<forall>msg. r = Inl (Error msg) \<longrightarrow>
          new \<noteq> [] \<and> (\<exists>res. snd (last new) = Some res \<and> \<not> res_ok res
             \<and> msg = failMessage (fst (last new)) @ dec (res_status res))) \<and>
     ((\<forall>msg. r \<noteq> Inl (Error msg)) \<longrightarrow> (\<forall>c \<in> set new. \<not> nonSuccess c))"
proof (cases "ffmpeg p")
  case (Bound inst)
  then show ?thesis using assms
    by (auto simp: dubSegment_def prim_defs svc_defs nonSuccess_def split: option.splits if_splits)
qed (use assms in \<open>auto simp: dubSegment_def prim_defs\<close>)


lemma processSegments_frame:
  "processSegments E pr segs d p = (r, p') \<Longrightarrow>
     status p' = status p \<and> statusLog p' = statusLog p \<and> downloadUrl p' = downloadUrl p
      \<and> execs p' = execs p \<and> isBound (ffmpeg p') = isBound (ffmpeg p)"
proof (induction segs arbitrary: d p)
  case Nil
  then show ?case by simp
next
  case (Cons seg rest)
  obtain r1 p1 where s: "dubSegment E pr seg p = (r1, p1)" by (cases "dubSegment E pr seg p")
  note f = dubSegment_frame[OF s]
  show ?case
  proof (cases r1)
    case (Inl e)
    then show ?thesis using Cons.prems s f by simp
  next
    case (Inr out)
    then have "processSegments E pr rest (d @ [out]) p1 = (r, p')" using Cons.prems s by simp
    from Cons.IH[OF this] f show ?thesis by simp
  qed
qed

lemma processSegments_names:
  "processSegments E pr segs d p = (Inr names, p') \<Longrightarrow>
     names = d @ map (\<lambda>s. ''tts_'' @ s) segs
     \<and> length (requests p') = length (requests p) + 3 * length segs
     \<and> dom (map_of (filesOf (ffmpeg p'))) = dom (map_of (filesOf (ffmpeg p))) \<union> (\<lambda>s. ''tts_'' @ s) ` set segs"
proof (induction segs arbitrary: d p)
  case Nil
  then show ?case by simp
next
  case (Cons seg rest)
  obtain r1 p1 where s: "dubSegment E pr seg p = (r1, p1)" by (cases "dubSegment E pr seg p")
  show ?case
  proof (cases r1)
    case (Inl e)
    then show ?thesis using Cons.prems s by simp
  next
    case (Inr out)
    then have t: "processSegments E pr rest (d @ [out]) p1 = (Inr names, p')" using Cons.prems s by simp
    from dubSegment_success[OF s[unfolded Inr]] Cons.IH[OF t] show ?thesis by auto
  qed
qed


lemma processSegments_requests:
  "processSegments E pr segs d p = (r, p') \<Longrightarrow>
   \<exists>new. requests p' = requests p @ new \<and> (\<forall>c \<in> set (butlast new). \<not> nonSuccess c) \<and>
     (\<forall>msg. r = Inl (Error msg) \<longrightarrow>
          new \<noteq> [] \<and> (\<exists>res. snd (last new) = Some res \<and> \<not> res_ok res
             \<and> msg = failMessage (fst (last new)) @ dec (res_status res))) \<and>
     ((\<forall>msg. r \<noteq> Inl (Error msg)) \<longrightarrow> (\<forall>c \<in> set new. \<not> nonSuccess c))"
proof (induction segs arbitrary: d p)
  case Nil
  then show ?case by auto
next
  case (Cons seg rest)
  obtain r1 p1 where s: "dubSegment E pr seg p = (r1, p1)" by (cases "dubSegment E pr seg p")
  from dubSegment_requests[OF s] obtain new1 where n1:
    "requests p1 = requests p @ new1" "\<forall>c \<in> set (butlast new1). \<not> nonSuccess c"
    "\<forall>msg. r1 = Inl (Error msg) \<longrightarrow>
          new1 \<noteq> [] \<and> (\<exists>res. snd (last new1) = Some res \<and> \<not> res_ok res
             \<and> msg = failMessage (fst (last new1)) @ dec (res_status res))"
    "(\<forall>msg. r1 \<noteq> Inl (Error msg)) \<longrightarrow> (\<forall>c \<in> set new1. \<not> nonSuccess c)"
    by blast
  show ?case
  proof (cases r1)
    case (Inl e)
    then have "r = Inl e" "p' = p1" using Cons.prems s by simp_all
    then show ?thesis using n1 Inl by blast
  next
    case (Inr out)
    then have t: "processSegments E pr rest (d @ [out]) p1 = (r, p')" using Cons.prems s by simp
    from Cons.IH[OF t] obtain new2 where n2:
      "requests p' = requests p1 @ new2" "\<forall>c \<in> set (butlast new2). \<not> nonSuccess c"
      "\<forall>msg. r = Inl (Error msg) \<longrightarrow>
          new2 \<noteq> [] \<and> (\<exists>res. snd (last new2) = Some res \<and> \<not> res_ok res
             \<and> msg = failMessage (fst (last new2)) @ dec (res_status res))"
      "(\<forall>msg. r \<noteq> Inl (Error msg)) \<longrightarrow> (\<forall>c \<in> set new2. \<not> nonSuccess c)"
      by blast
    have ok1: "\<forall>c \<in> set new1. \<not> nonSuccess c" using n1(4) Inr by simp
    have a: "requests p' = requests p @ (new1 @ new2)" using n1(1) n2(1) by simp
    have b: "\<forall>c \<in> set (butlast (new1 @ new2)). \<not> nonSuccess c"
      using ok1 n2(2) by (auto simp: butlast_append split: if_splits dest: in_set_butlastD)
    have c: "\<forall>msg. r = Inl (Error msg) \<longrightarrow>
          new1 @ new2 \<noteq> [] \<and> (\<exists>res. snd (last (new1 @ new2)) = Some res \<and> \<not> res_ok res
             \<and> msg = failMessage (fst (last (new1 @ new2))) @ dec (res_status res))"
      using n2(3) by auto
    have d: "(\<forall>msg. r \<noteq> Inl (Error msg)) \<longrightarrow> (\<forall>c \<in> set (new1 @ new2). \<not> nonSuccess c)"
      using ok1 n2(4) by auto
    show ?thesis using a b c d by blast
  qed
qed



lemma viaFFmpeg_eq:
  "viaFFmpeg opn p = (callResult opn (ffmpeg p), p\<lparr>ffmpeg := callState opn (ffmpeg p)\<rparr>)"
  by (simp add: viaFFmpeg_def callResult_def callState_def split: ffmpegState.splits sum.splits prod.splits)

lemma ffmpegExec_eq:
  "ffmpegExec E a p =
     (execResult E a (ffmpeg p),
      p\<lparr>execs := execs p @ execEntry a (ffmpeg p), ffmpeg := execState E a (ffmpeg p)\<rparr>)"
  by (simp add: ffmpegExec_def execResult_def execState_def execEntry_def Let_def
      split: ffmpegState.splits option.splits)

lemma isBound_callState [simp]: "isBound (callState opn s) = isBound s"
  by (simp add: callState_def split: ffmpegState.splits sum.splits prod.splits)

lemma isBound_execState [simp]: "isBound (execState E a s) = isBound s"
  by (simp add: execState_def split: ffmpegState.splits option.splits)

lemma callResult_unbound [simp]: "\<not> isBound s \<Longrightarrow> callResult opn s = Inl TypeError"
  by (cases s) (simp_all add: callResult_def)

lemma execResult_unbound [simp]: "\<not> isBound s \<Longrightarrow> execResult E a s = Inl TypeError"
  by (cases s) (simp_all add: execResult_def)

lemma callResult_writeFile: "callResult (writeFile n d) s = (if isBound s then Inr () else Inl TypeError)"
  by (cases s) (simp_all add: callResult_def writeFile_def)

lemma callResult_Inl_not_Error: "callResult (writeFile n d) s \<noteq> Inl (Error msg)"
  "callResult (readFile n) s \<noteq> Inl (Error msg)" "callResult listDir s \<noteq> Inl (Error msg)"
  by (cases s; simp add: callResult_def writeFile_def readFile_def listDir_def split: option.splits)+

lemma execResult_not_Error: "execResult E a s \<noteq> Inl (Error msg)"
  by (cases s) (simp_all add: execResult_def split: option.splits)

lemmas run_defs = andThen_def succeed_def raise_def attempt_def setStatus_def setDownloadUrl_def
  resetFS_def viaFFmpeg_eq ffmpegExec_eq

lemma ensureFFmpeg_eq:
  "ensureFFmpeg E p =
    (case ffmpeg p of
       NoInstance \<Rightarrow>
         (if load E then Inr () else Inl FFmpegRejected,
          p\<lparr>status := Preparing, statusLog := statusLog p @ [Preparing],
            ffmpeg := Unbound \<lparr>loaded = load E, memfs = []\<rparr>\<rparr>)
     | Unbound inst \<Rightarrow>
         (if loaded inst \<or> load E then Inr () else Inl FFmpegRejected,
          p\<lparr>ffmpeg := Unbound (inst\<lparr>loaded := loaded inst \<or> load E\<rparr>)\<rparr>)
     | Bound inst \<Rightarrow>
         (if loaded inst \<or> load E then Inr () else Inl FFmpegRejected,
          p\<lparr>ffmpeg := Bound (inst\<lparr>loaded := loaded inst \<or> load E\<rparr>)\<rparr>))"
  by (auto simp: ensureFFmpeg_def loadInstance_def andThen_def setStatus_def split: ffmpegState.splits)

lemma handleStart_segment_summary:
  assumes "handleStart_segment E pr p = (r, p1)"
  shows "downloadUrl p1 = None \<and> requests p1 = requests p \<and>
    (\<forall>msg. r = Inl (Error msg) \<longrightarrow> msg = ''Missing OpenAI API key'' \<or> msg = ''No video uploaded'') \<and>
    (\<exists>k\<in>{0, 1, 2}. statusLog p1 = statusLog p @ take k (runStages p)
            \<and> status p1 = last (status p # take k (runStages p))
            \<and> ((\<exists>x. r = Inr x) \<longrightarrow> k = 2 \<and> isBound (ffmpeg p) \<and> isBound (ffmpeg p1)))"
proof (cases "apiKey pr = []")
  case True
  then show ?thesis using assms by (auto simp: handleStart_segment_def run_defs)
next
  case a: False
  show ?thesis
  proof (cases "videoFile pr")
    case None
    then show ?thesis using assms a by (auto simp: handleStart_segment_def run_defs)
  next
    case (Some nc)
    obtain name content where nc: "nc = (name, content)" by (cases nc)
    note v = Some[unfolded nc]
    show ?thesis
    proof (cases "ffmpeg p")
      case NoInstance
      then show ?thesis using assms v a
        by (auto simp: handleStart_segment_def run_defs ensureFFmpeg_eq runStages_def stages_def split: if_splits)
    next
      case (Unbound inst)
      then show ?thesis using assms v a
        by (auto simp: handleStart_segment_def run_defs ensureFFmpeg_eq runStages_def stages_def split: if_splits)
    next
      case (Bound inst)
      then show ?thesis using assms v a
        by (auto simp: handleStart_segment_def run_defs ensureFFmpeg_eq runStages_def stages_def
              callResult_writeFile callResult_Inl_not_Error execResult_not_Error
            split: if_splits sum.splits)
    qed
  qed
qed

lemma runStages_bound: "isBound s \<Longrightarrow> ffmpeg p = s \<Longrightarrow>
   runStages p = [Extracting, Segmenting, Transcribing, Concatenating, Muxing, Done]"
  by (cases s) (auto simp: runStages_def stages_def)





lemma handleStart_eq:
  "handleStart E pr p =
     (case handleStart_segment E pr p of
        (Inl e, p1) \<Rightarrow> (Inl e, p1)
      | (Inr (inp, files), p1) \<Rightarrow>
          (case handleStart_dub E pr files p1 of
             (Inl e, p2) \<Rightarrow> (Inl e, p2)
           | (Inr names, p2) \<Rightarrow> handleStart_mux E inp names p2))"
  by (simp add: handleStart_def andThen_def split: prod.splits sum.splits)

lemma handleStart_dub_empty:
  "handleStart_dub E pr [] p = (Inl (Error ''No segments produced''), p)"
  by (simp add: handleStart_dub_def raise_def)

lemma handleStart_dub_loop:
  assumes "handleStart_dub E pr files p1 = (r, p2)" and ne: "files \<noteq> []"
  shows "processSegments E pr (usedSegments files (maxMinutes pr)) []
           (p1\<lparr>status := Transcribing, statusLog := statusLog p1 @ [Transcribing]\<rparr>) = (r, p2)"
  using assms by (simp add: handleStart_dub_def andThen_def setStatus_def)



lemma handleStart_dub_names:
  assumes "handleStart_dub E pr files p1 = (Inr names, p2)" and ne: "files \<noteq> []"
  shows "names = map (\<lambda>s. ''tts_'' @ s) (usedSegments files (maxMinutes pr))"
    "length (requests p2) = length (requests p1) + 3 * length (usedSegments files (maxMinutes pr))"
    "dom (map_of (filesOf (ffmpeg p2))) = dom (map_of (filesOf (ffmpeg p1)))
              \<union> (\<lambda>s. ''tts_'' @ s) ` set (usedSegments files (maxMinutes pr))"
  using processSegments_names[OF handleStart_dub_loop[OF assms]] by simp_all

lemma handleStart_dub_summary:
  assumes "handleStart_dub E pr files p1 = (r, p2)" and ne: "files \<noteq> []"
  shows "statusLog p2 = statusLog p1 @ [Transcribing] \<and> status p2 = Transcribing
     \<and> downloadUrl p2 = downloadUrl p1 \<and> execs p2 = execs p1
     \<and> isBound (ffmpeg p2) = isBound (ffmpeg p1)
     \<and> (\<exists>new. requests p2 = requests p1 @ new \<and> (\<forall>c \<in> set (butlast new). \<not> nonSuccess c) \<and>
         (\<forall>msg. r = Inl (Error msg) \<longrightarrow>
            new \<noteq> [] \<and> (\<exists>res. snd (last new) = Some res \<and> \<not> res_ok res
               \<and> msg = failMessage (fst (last new)) @ dec (res_status res))) \<and>
         ((\<forall>msg. r \<noteq> Inl (Error msg)) \<longrightarrow> (\<forall>c \<in> set new. \<not> nonSuccess c)))
     \<and> (\<forall>names. r = Inr names \<longrightarrow>
           names = map (\<lambda>s. ''tts_'' @ s) (usedSegments files (maxMinutes pr))
         \<and> length (requests p2) = length (requests p1) + 3 * length (usedSegments files (maxMinutes pr))
         \<and> dom (map_of (filesOf (ffmpeg p2))) = dom (map_of (filesOf (ffmpeg p1)))
              \<union> (\<lambda>s. ''tts_'' @ s) ` set (usedSegments files (maxMinutes pr)))"
proof -
  define q where "q = p1\<lparr>status := Transcribing, statusLog := statusLog p1 @ [Transcribing]\<rparr>"
  have l: "processSegments E pr (usedSegments files (maxMinutes pr)) [] q = (r, p2)"
    using assms by (simp add: handleStart_dub_def andThen_def setStatus_def q_def)
  from processSegments_frame[OF l] processSegments_requests[OF l]
  have 1: "statusLog p2 = statusLog p1 @ [Transcribing] \<and> status p2 = Transcribing
     \<and> downloadUrl p2 = downloadUrl p1 \<and> execs p2 = execs p1
     \<and> isBound (ffmpeg p2) = isBound (ffmpeg p1)"
   and 2: "(\<exists>new. requests p2 = requests p1 @ new \<and> (\<forall>c \<in> set (butlast new). \<not> nonSuccess c) \<and>
         (\<forall>msg. r = Inl (Error msg) \<longrightarrow>
            new \<noteq> [] \<and> (\<exists>res. snd (last new) = Some res \<and> \<not> res_ok res
               \<and> msg = failMessage (fst (last new)) @ dec (res_status res))) \<and>
         ((\<forall>msg. r \<noteq> Inl (Error msg)) \<longrightarrow> (\<forall>c \<in> set new. \<not> nonSuccess c)))"
    by (simp_all add: q_def)
  have 3: "names = map (\<lambda>s. ''tts_'' @ s) (usedSegments files (maxMinutes pr))
         \<and> length (requests p2) = length (requests p1) + 3 * length (usedSegments files (maxMinutes pr))
         \<and> dom (map_of (filesOf (ffmpeg p2))) = dom (map_of (filesOf (ffmpeg p1)))
              \<union> (\<lambda>s. ''tts_'' @ s) ` set (usedSegments files (maxMinutes pr))" if "r = Inr names" for names
    using processSegments_names[OF l[unfolded that]] by (simp add: q_def)
  show ?thesis using 1 2 3 by blast
qed

lemma handleStart_mux_summary:
  assumes "handleStart_mux E inp names p = (r, p')"
  shows "requests p' = requests p \<and> (\<forall>msg. r \<noteq> Inl (Error msg)) \<and>
     ((r = Inr () \<and> status p' = Done \<and> statusLog p' = statusLog p @ [Concatenating, Muxing, Done]
        \<and> downloadUrl p' \<noteq> None) \<or>
      ((\<exists>e. r = Inl e) \<and> downloadUrl p' = downloadUrl p \<and>
        ((status p' = Concatenating \<and> statusLog p' = statusLog p @ [Concatenating]) \<or>
         (status p' = Muxing \<and> statusLog p' = statusLog p @ [Concatenating, Muxing]))))"
proof (cases "ffmpeg p")
  case NoInstance
  then show ?thesis using assms by (auto simp: handleStart_mux_def prim_defs)
next
  case (Unbound x2)
  then show ?thesis using assms by (auto simp: handleStart_mux_def prim_defs)
next
  case (Bound inst)
  then show ?thesis using assms
    by (auto simp: handleStart_mux_def prim_defs split: option.splits)
qed


lemma handleStart_cases:
  obtains (segment) e p1 where
      "handleStart_segment E pr p = (Inl e, p1)" "handleStart E pr p = (Inl e, p1)"
  | (nofiles) inp p1 where
      "handleStart_segment E pr p = (Inr (inp, []), p1)"
      "handleStart E pr p = (Inl (Error ''No segments produced''), p1)"
  | (dub) inp files p1 e p2 where
      "handleStart_segment E pr p = (Inr (inp, files), p1)" "files \<noteq> []"
      "handleStart_dub E pr files p1 = (Inl e, p2)" "handleStart E pr p = (Inl e, p2)"
  | (mux) inp files p1 names p2 r p3 where
      "handleStart_segment E pr p = (Inr (inp, files), p1)" "files \<noteq> []"
      "handleStart_dub E pr files p1 = (Inr names, p2)"
      "handleStart_mux E inp names p2 = (r, p3)" "handleStart E pr p = (r, p3)"
proof -
  obtain r1 p1 where s: "handleStart_segment E pr p = (r1, p1)"
    by (cases "handleStart_segment E pr p")
  show thesis
  proof (cases r1)
    case (Inl e)
    then show thesis using s segment by (simp add: handleStart_eq)
  next
    case (Inr x)
    obtain inp files where x: "x = (inp, files)" by (cases x)
    show thesis
    proof (cases "files = []")
      case True
      then show thesis using s Inr x nofiles by (simp add: handleStart_eq handleStart_dub_empty)
    next
      case False
      obtain r2 p2 where d: "handleStart_dub E pr files p1 = (r2, p2)"
        by (cases "handleStart_dub E pr files p1")
      show thesis
      proof (cases r2)
        case (Inl e)
        then show thesis using s Inr x d False dub by (simp add: handleStart_eq)
      next
        case names: (Inr names)
        obtain r3 p3 where m: "handleStart_mux E inp names p2 = (r3, p3)"
          by (cases "handleStart_mux E inp names p2")
        show thesis
          using mux[OF s[unfolded Inr x] False d[unfolded names] m] s Inr x d names m
          by (simp add: handleStart_eq)
      qed
    qed
  qed
qed

lemma take_short_ne: "k \<in> {0, 1, 2} \<Longrightarrow> take k (runStages p) \<noteq> tl stages"
proof
  assume k: "k \<in> {0, 1, 2}" and "take k (runStages p) = tl stages"
  then have "length (take k (runStages p)) = length (tl stages)" by simp
  then show False using k by (auto simp: stages_def)
qed

lemma transcribe_iff:
  "(fst (transcribeWithOpenAI E k a q) = Inl (Error msg)) =
     (\<exists>res. fetch E (length (requests q)) (Transcription k a) = Some res \<and> \<not> res_ok res
        \<and> msg = ''Transcription failed: '' @ dec (res_status res))"
  "requests (snd (transcribeWithOpenAI E k a q)) =
     requests q @ [(Transcription k a, fetch E (length (requests q)) (Transcription k a))]"
  by (auto simp: svc_defs prim_defs split: option.splits)

lemma translate_iff:
  "(fst (translateWithOpenAI E k t l q) = Inl (Error msg)) =
     (\<exists>res. fetch E (length (requests q)) (ChatCompletion k (systemPrompt l) t) = Some res \<and> \<not> res_ok res
        \<and> msg = ''Translation failed: '' @ dec (res_status res))"
  "requests (snd (translateWithOpenAI E k t l q)) =
     requests q @ [(ChatCompletion k (systemPrompt l) t, fetch E (length (requests q)) (ChatCompletion k (systemPrompt l) t))]"
  by (auto simp: svc_defs prim_defs split: option.splits)

lemma tts_iff:
  "(fst (ttsWithOpenAI E k t v q) = Inl (Error msg)) =
     (\<exists>res. fetch E (length (requests q)) (Speech k t v) = Some res \<and> \<not> res_ok res
        \<and> msg = ''TTS failed: '' @ dec (res_status res))"
  "requests (snd (ttsWithOpenAI E k t v q)) =
     requests q @ [(Speech k t v, fetch E (length (requests q)) (Speech k t v))]"
  by (auto simp: svc_defs prim_defs split: option.splits)

lemma usedSegments_nonneg:
  "0 \<le> q \<Longrightarrow> usedSegments files (Finite q) = take (nat (min (int (length files)) \<lceil>q\<rceil>)) files"
  by (simp add: usedSegments_def maxSegments_def min_def)


subsection \<open>The reset, the contents of the dubbed files and the calls of the engine\<close>







lemma transcribeTranslateTTS_success:
  assumes "transcribeTranslateTTS E pr audio p = (Inr wav, p')"
  shows "\<exists>r1 d1 r2 d2 r3.
     requests p' = requests p @
       [(Transcription (apiKey pr) audio, Some r1),
        (ChatCompletion (apiKey pr) (systemPrompt (targetLang pr)) (member d1 ''text''), Some r2),
        (Speech (apiKey pr) (logicalOr (contentOf (member d2 ''choices'')) (JStr [])) (voice pr), Some r3)]
     \<and> res_json r1 = Some d1 \<and> res_json r2 = Some d2 \<and> wav = res_arrayBuffer r3"
  using assms
  by (auto simp: svc_defs prim_defs split: option.splits if_splits)


lemma tts_inj: "(''tts_'' @ a = ''tts_'' @ b) = (a = b)"
  by simp














lemma logicalOr_falsy: "c \<in> {JUndefined, JNull, JStr []} \<Longrightarrow> logicalOr c d = d"
  by (auto simp: logicalOr_def)

section \<open>The dubbed segments and their order\<close>



section \<open>The duration cap\<close>

text \<open>
  C2, as amended. For every number of segment files and every finite \<^verbatim>\<open>maxMinutes\<close>
  that is not negative, \<^verbatim>\<open>usedSegments\<close> is the first \<open>min(T, ceil(maxMinutes))\<close> files of
  the sorted listing, the rest is dropped, and the count is at most \<open>T\<close>; a loop that
  runs to its end has dubbed exactly these files, with three requests for each.
\<close>

theorem duration_cap:
  assumes q: "0 \<le> q" and m: "maxMinutes pr = Finite q"
  shows "usedSegments files (maxMinutes pr) = take (nat (min (int (length files)) \<lceil>q\<rceil>)) files
     \<and> int (length (usedSegments files (maxMinutes pr))) = min (int (length files)) \<lceil>q\<rceil>
     \<and> files = usedSegments files (maxMinutes pr)
                @ drop (length (usedSegments files (maxMinutes pr))) files
     \<and> length (usedSegments files (maxMinutes pr)) \<le> length files
     \<and> (\<forall>names. fst (handleStart_dub E pr files p) = Inr names \<longrightarrow>
           names = map (\<lambda>s. ''tts_'' @ s) (take (nat (min (int (length files)) \<lceil>q\<rceil>)) files)
           \<and> int (length (requests (snd (handleStart_dub E pr files p))))
               = int (length (requests p)) + 3 * min (int (length files)) \<lceil>q\<rceil>)"
proof -
  define k where "k = \<lceil>q\<rceil>"
  have "(0::rat) \<le> of_int \<lceil>q\<rceil>" using q le_of_int_ceiling[of q] by linarith
  then have k: "0 \<le> k" unfolding k_def by (simp only: of_int_0_le_iff)
  have u: "usedSegments files (maxMinutes pr) = take (nat (min (int (length files)) k)) files"
    unfolding k_def m by (rule usedSegments_nonneg[OF q])
  have n: "nat (min (int (length files)) k) \<le> length files" by simp
  have l: "length (usedSegments files (maxMinutes pr)) = nat (min (int (length files)) k)"
    unfolding u using n by simp
  have i: "int (nat (min (int (length files)) k)) = min (int (length files)) k"
    using k by simp
  have run: "names = map (\<lambda>s. ''tts_'' @ s) (take (nat (min (int (length files)) k)) files)
           \<and> int (length (requests (snd (handleStart_dub E pr files p))))
               = int (length (requests p)) + 3 * min (int (length files)) k"
    if d: "fst (handleStart_dub E pr files p) = Inr names" for names
  proof -
    obtain p2 where d2: "handleStart_dub E pr files p = (Inr names, p2)"
      using d by (metis prod.collapse)
    have ne: "files \<noteq> []" using d2 by (auto simp: handleStart_dub_empty)
    from handleStart_dub_names(1,2)[OF d2 ne]
    have "names = map (\<lambda>s. ''tts_'' @ s) (take (nat (min (int (length files)) k)) files)"
      and "length (requests p2) = length (requests p) + 3 * nat (min (int (length files)) k)"
      unfolding u l by simp_all
    then show ?thesis using d2 i by simp
  qed
  have "int (length (usedSegments files (maxMinutes pr))) = min (int (length files)) k"
    unfolding l by (rule i)
  moreover have "files = usedSegments files (maxMinutes pr)
                @ drop (length (usedSegments files (maxMinutes pr))) files"
    unfolding l unfolding u by simp
  moreover have "length (usedSegments files (maxMinutes pr)) \<le> length files"
    unfolding l by (rule n)
  ultimately show ?thesis using u run unfolding k_def by blast
qed

theorem duration_cap_witness:
  "usedSegments (map segName [0..<10]) (Finite 2) = [''seg_000.wav'', ''seg_001.wav'']
   \<and> fst (handleStart_dub demoEnv (demoProps\<lparr>maxMinutes := Finite 2\<rparr>) (map segName [0..<10])
         (loadedPage tenSegments)) = Inr [''tts_seg_000.wav'', ''tts_seg_001.wav'']
   \<and> length (requests (snd (handleStart_dub demoEnv (demoProps\<lparr>maxMinutes := Finite 2\<rparr>)
         (map segName [0..<10]) (loadedPage tenSegments)))) = 6"
proof -
  let ?pr = "demoProps\<lparr>maxMinutes := Finite 2\<rparr>"
  have q: "(0::rat) \<le> 2" by simp
  have m: "maxMinutes ?pr = Finite 2" by simp
  have d: "fst (handleStart_dub demoEnv ?pr (map segName [0..<10]) (loadedPage tenSegments))
      = Inr [''tts_seg_000.wav'', ''tts_seg_001.wav'']"
    by code_simp
  have r: "requests (loadedPage tenSegments) = []" by (simp add: loadedPage_def initialPage_def)
  have t: "take 2 (map segName [0..<10]) = [''seg_000.wav'', ''seg_001.wav'']" by code_simp
  from duration_cap[OF q m, of "map segName [0..<10]" demoEnv "loadedPage tenSegments"]
  have u: "usedSegments (map segName [0..<10]) (maxMinutes ?pr) = take (nat (min (int (length (map segName [0..<10]))) \<lceil>2::rat\<rceil>)) (map segName [0..<10])"
    and "\<forall>names. fst (handleStart_dub demoEnv ?pr (map segName [0..<10]) (loadedPage tenSegments)) = Inr names \<longrightarrow>
           int (length (requests (snd (handleStart_dub demoEnv ?pr (map segName [0..<10]) (loadedPage tenSegments)))))
               = int (length (requests (loadedPage tenSegments))) + 3 * min (int (length (map segName [0..<10]))) \<lceil>2::rat\<rceil>"
    by blast+
  then have "int (length (requests (snd (handleStart_dub demoEnv ?pr (map segName [0..<10]) (loadedPage tenSegments)))))
      = int (length (requests (loadedPage tenSegments))) + 3 * min (int (length (map segName [0..<10]))) \<lceil>2::rat\<rceil>"
    using d by blast
  then have "length (requests (snd (handleStart_dub demoEnv ?pr (map segName [0..<10]) (loadedPage tenSegments)))) = 6"
    by (simp add: r)
  moreover have "usedSegments (map segName [0..<10]) (Finite 2) = [''seg_000.wav'', ''seg_001.wav'']"
    using u t by simp
  ultimately show ?thesis using d by blast
qed

text \<open>
  C2 as stated fails for a negative \<^verbatim>\<open>maxMinutes\<close>: with five files and \<^verbatim>\<open>maxMinutes\<close>
  \<open>- 2\<close> the formula gives \<open>- 2\<close>, and \<^verbatim>\<open>slice(0, -2)\<close> passes three files on.
\<close>

theorem usedSegments_negative_counterexample:
  "min (int (length [''seg_000.wav'', ''seg_001.wav'', ''seg_002.wav'', ''seg_003.wav'', ''seg_004.wav'']))
       \<lceil>- 2 :: rat\<rceil> = - 2
   \<and> usedSegments [''seg_000.wav'', ''seg_001.wav'', ''seg_002.wav'', ''seg_003.wav'', ''seg_004.wav'']
       (Finite (- 2)) = [''seg_000.wav'', ''seg_001.wav'', ''seg_002.wav'']"
  by (simp add: usedSegments_def maxSegments_def)

section \<open>The status of a run\<close>

text \<open>
  C3, as amended. The statuses one run sets are an initial part of the stages in the
  order of the code, starting at \<^verbatim>\<open>preparing\<close> when no instance exists and at
  \<^verbatim>\<open>extracting\<close> otherwise; the status the run leaves is the last one it set, or the one
  it found when it set none (there is no status for a failed run); and the run returns
  normally exactly when it has set \<^verbatim>\<open>extracting\<close> through \<^verbatim>\<open>done\<close>.
\<close>

theorem status_forward_only:
  "\<exists>k. statusLog (snd (handleStart E pr p)) = statusLog p @ take k (runStages p)
      \<and> status (snd (handleStart E pr p)) = last (status p # take k (runStages p))
      \<and> (fst (handleStart E pr p) = Inr ()) = (take k (runStages p) = tl stages)"
proof (cases rule: handleStart_cases[of E pr p])
  case (segment e p1)
  from handleStart_segment_summary[OF segment(1)] obtain k where
    "k \<in> {0, 1, 2}" "statusLog p1 = statusLog p @ take k (runStages p)"
    "status p1 = last (status p # take k (runStages p))" by blast
  then show ?thesis using segment(2) take_short_ne[of k p] by (intro exI[of _ k]) simp
next
  case (nofiles inp p1)
  from handleStart_segment_summary[OF nofiles(1)] obtain k where
    "k \<in> {0, 1, 2}" "statusLog p1 = statusLog p @ take k (runStages p)"
    "status p1 = last (status p # take k (runStages p))" by blast
  then show ?thesis using nofiles(2) take_short_ne[of k p] by (intro exI[of _ k]) simp
next
  case (dub inp files p1 e p2)
  from handleStart_segment_summary[OF dub(1)] have
    b: "isBound (ffmpeg p)" and l: "statusLog p1 = statusLog p @ take 2 (runStages p)"
    by auto
  note rs = runStages_bound[OF b refl]
  show ?thesis
    using dub(4) l handleStart_dub_summary[OF dub(3) dub(2)]
    by (intro exI[of _ 3]) (simp add: rs stages_def)
next
  case (mux inp files p1 names p2 r p3)
  from handleStart_segment_summary[OF mux(1)] have
    b: "isBound (ffmpeg p)" and l: "statusLog p1 = statusLog p @ take 2 (runStages p)"
    by auto
  note rs = runStages_bound[OF b refl]
  from handleStart_dub_summary[OF mux(3) mux(2)] have
    l2: "statusLog p2 = statusLog p1 @ [Transcribing]" by simp
  from handleStart_mux_summary[OF mux(4)] consider
      (ok) "r = Inr ()" "status p3 = Done" "statusLog p3 = statusLog p2 @ [Concatenating, Muxing, Done]"
    | (c) e where "r = Inl e" "status p3 = Concatenating" "statusLog p3 = statusLog p2 @ [Concatenating]"
    | (m) e where "r = Inl e" "status p3 = Muxing" "statusLog p3 = statusLog p2 @ [Concatenating, Muxing]"
    by blast
  then show ?thesis
  proof cases
    case ok
    then show ?thesis using mux(5) l l2 by (intro exI[of _ 6]) (simp add: rs stages_def)
  next
    case c
    then show ?thesis using mux(5) l l2 by (intro exI[of _ 4]) (simp add: rs stages_def)
  next
    case m
    then show ?thesis using mux(5) l l2 by (intro exI[of _ 5]) (simp add: rs stages_def)
  qed
qed

text \<open>
  C3 as stated fails. When the engine cannot be loaded on a fresh page the run raises
  and the status stays \<^verbatim>\<open>preparing\<close>: no failed state is entered. And a run on a page
  whose instance exists goes from the status it finds straight to \<^verbatim>\<open>extracting\<close>, without
  \<^verbatim>\<open>preparing\<close>.
\<close>

theorem status_failed_counterexample:
  "fst (handleStart noLoadEnv demoProps initialPage) = Inl FFmpegRejected
   \<and> status (snd (handleStart noLoadEnv demoProps initialPage)) = Preparing
   \<and> statusLog (snd (handleStart demoEnv demoProps (loadedPage [])))
       = [Extracting, Segmenting, Transcribing, Concatenating, Muxing, Done]"
  by code_simp

text \<open>
  A run that creates the instance cannot use it: the constant \<^verbatim>\<open>ffmpeg\<close> of line 66 was
  computed before the instance existed, so the first call through it that is not inside
  a \<^verbatim>\<open>try\<close> (line 107) raises a \<^verbatim>\<open>TypeError\<close>, in the status \<^verbatim>\<open>extracting\<close>.
\<close>

lemma first_run_on_fresh_page:
  "fst (handleStart demoEnv demoProps initialPage) = Inl TypeError
   \<and> statusLog (snd (handleStart demoEnv demoProps initialPage)) = [Preparing, Extracting]"
  by code_simp

text \<open>
  A run on a page whose \<^verbatim>\<open>ffmpeg\<close> does not refer to an instance ends with one of four
  errors and leaves the page so.
\<close>

lemma handleStart_unbound:
  assumes u: "\<not> isBound (ffmpeg p)"
  shows "fst (handleStart E pr p)
           \<in> {Inl (Error ''Missing OpenAI API key''), Inl (Error ''No video uploaded''),
              Inl FFmpegRejected, Inl TypeError}
     \<and> \<not> isBound (ffmpeg (snd (handleStart E pr p)))
     \<and> filesOf (ffmpeg (snd (handleStart E pr p))) = filesOf (ffmpeg p)
     \<and> requests (snd (handleStart E pr p)) = requests p
     \<and> execs (snd (handleStart E pr p)) = execs p
     \<and> downloadUrl (snd (handleStart E pr p)) = None"
proof -
  obtain r p1 where s: "handleStart_segment E pr p = (r, p1)"
    by (cases "handleStart_segment E pr p")
  have "r \<in> {Inl (Error ''Missing OpenAI API key''), Inl (Error ''No video uploaded''),
              Inl FFmpegRejected, Inl TypeError}
     \<and> \<not> isBound (ffmpeg p1) \<and> filesOf (ffmpeg p1) = filesOf (ffmpeg p)
     \<and> requests p1 = requests p \<and> execs p1 = execs p \<and> downloadUrl p1 = None"
  proof (cases "apiKey pr = []")
    case True
    then show ?thesis using s u by (auto simp: handleStart_segment_def run_defs)
  next
    case a: False
    show ?thesis
    proof (cases "videoFile pr")
      case None
      then show ?thesis using s a u by (auto simp: handleStart_segment_def run_defs)
    next
      case (Some nc)
      obtain name content where nc: "nc = (name, content)" by (cases nc)
      note v = Some[unfolded nc]
      show ?thesis
      proof (cases "ffmpeg p")
        case NoInstance
        then show ?thesis using s v a
          by (auto simp: handleStart_segment_def run_defs ensureFFmpeg_eq execEntry_def callState_def
              split: if_splits)
      next
        case (Unbound inst)
        then show ?thesis using s v a
          by (auto simp: handleStart_segment_def run_defs ensureFFmpeg_eq execEntry_def callState_def
              split: if_splits)
      next
        case (Bound inst)
        then show ?thesis using u by simp
      qed
    qed
  qed
  moreover from this obtain e where "r = Inl e" by auto
  ultimately show ?thesis using s by (simp add: handleStart_eq)
qed

text \<open>
  So on the page as first rendered, and after any number of runs on it, \<^verbatim>\<open>ffmpeg\<close> does
  not refer to an instance, the working area holds no file, and no request was sent and
  no call of the engine made. The statements below hold on every page, this one and the
  pages whose \<^verbatim>\<open>ffmpeg\<close> refers to the instance.
\<close>

lemma no_run_binds_the_handle:
  "\<not> isBound (ffmpeg (runs rs initialPage)) \<and> filesOf (ffmpeg (runs rs initialPage)) = []
   \<and> requests (runs rs initialPage) = [] \<and> execs (runs rs initialPage) = []"
proof -
  have "\<not> isBound (ffmpeg p) \<and> filesOf (ffmpeg p) = [] \<and> requests p = [] \<and> execs p = [] \<Longrightarrow>
     \<not> isBound (ffmpeg (runs rs p)) \<and> filesOf (ffmpeg (runs rs p)) = []
       \<and> requests (runs rs p) = [] \<and> execs (runs rs p) = []" for p
  proof (induction rs arbitrary: p)
    case Nil
    then show ?case by simp
  next
    case (Cons a rs)
    obtain E pr where a: "a = (E, pr)" by (cases a)
    have u: "\<not> isBound (ffmpeg p)" using Cons.prems by simp
    show ?case unfolding a runs.simps
      by (rule Cons.IH) (use handleStart_unbound[OF u, of E pr] Cons.prems in simp)
  qed
  then show ?thesis by (simp add: initialPage_def)
qed

section \<open>The reset at the start of a run\<close>




text \<open>
  \<^verbatim>\<open>usedArea\<close> is what a run of the small environment leaves. On a page whose
  \<^verbatim>\<open>ffmpeg\<close> refers to an instance with these files, a run on a video of one segment
  lists and dubs the old second segment after its own, and a run on a video without sound
  completes on the two old segments.
\<close>

lemma run_leaves_usedArea:
  "filesOf (ffmpeg (snd (handleStart demoEnv demoProps (loadedPage [])))) = usedArea"
  by code_simp

lemma second_run_lists_old_segments:
  "fst (handleStart demoEnv (demoProps\<lparr>videoFile := Some (''next.mp4'', ''c'')\<rparr>) (loadedPage usedArea)) = Inr ()
   \<and> map (\<lambda>c. case fst c of Transcription k a \<Rightarrow> a | _ \<Rightarrow> [])
        (requests (snd (handleStart demoEnv (demoProps\<lparr>videoFile := Some (''next.mp4'', ''c'')\<rparr>)
          (loadedPage usedArea))))
      = [''c'', [], [], ''b'', [], []]
   \<and> fst (handleStart demoEnv silentProps (loadedPage usedArea)) = Inr ()"
  by code_simp

section \<open>Failures of the services\<close>

text \<open>
  C5. Each service function raises its error with the status, \<^verbatim>\<open>Transcription failed: \<close>,
  \<^verbatim>\<open>Translation failed: \<close> or \<^verbatim>\<open>TTS failed: \<close> followed by \<^verbatim>\<open>res.status\<close>, exactly when the
  answer to its one \<^verbatim>\<open>fetch\<close> is not \<^verbatim>\<open>ok\<close>. In a run, no call before the last was
  answered without success; when the last call of the run was, the run ends with that
  error, in the status \<^verbatim>\<open>transcribing\<close> (no concatenation or muxing began) and without
  a download handle; and a run raises an error of a service only then. Nothing follows
  the failed call: it is not sent again and no later segment is touched. The files
  \<^verbatim>\<open>tts_...\<close> of the segments finished before stay in the working file system, unused.
\<close>

theorem service_failure_aborts:
  "(\<forall>k a q msg. (fst (transcribeWithOpenAI E k a q) = Inl (Error msg)) =
       (\<exists>res. fetch E (length (requests q)) (Transcription k a) = Some res \<and> \<not> res_ok res
          \<and> msg = ''Transcription failed: '' @ dec (res_status res)))
   \<and> (\<forall>k t l q msg. (fst (translateWithOpenAI E k t l q) = Inl (Error msg)) =
       (\<exists>res. fetch E (length (requests q)) (ChatCompletion k (systemPrompt l) t) = Some res
          \<and> \<not> res_ok res \<and> msg = ''Translation failed: '' @ dec (res_status res)))
   \<and> (\<forall>k t v q msg. (fst (ttsWithOpenAI E k t v q) = Inl (Error msg)) =
       (\<exists>res. fetch E (length (requests q)) (Speech k t v) = Some res \<and> \<not> res_ok res
          \<and> msg = ''TTS failed: '' @ dec (res_status res)))
   \<and> (\<exists>new. requests (snd (handleStart E pr p)) = requests p @ new
        \<and> (\<forall>c \<in> set (butlast new). \<not> nonSuccess c)
        \<and> (new \<noteq> [] \<and> nonSuccess (last new) \<longrightarrow>
             (\<exists>res. snd (last new) = Some res \<and> \<not> res_ok res
                \<and> fst (handleStart E pr p)
                    = Inl (Error (failMessage (fst (last new)) @ dec (res_status res))))
             \<and> status (snd (handleStart E pr p)) = Transcribing
             \<and> downloadUrl (snd (handleStart E pr p)) = None)
        \<and> (\<forall>msg. fst (handleStart E pr p) = Inl (Error msg) \<longrightarrow>
              msg = ''Missing OpenAI API key'' \<or> msg = ''No video uploaded''
              \<or> msg = ''No segments produced'' \<or> (new \<noteq> [] \<and> nonSuccess (last new))))"
proof -
  have run: "\<exists>new. requests (snd (handleStart E pr p)) = requests p @ new
        \<and> (\<forall>c \<in> set (butlast new). \<not> nonSuccess c)
        \<and> (new \<noteq> [] \<and> nonSuccess (last new) \<longrightarrow>
             (\<exists>res. snd (last new) = Some res \<and> \<not> res_ok res
                \<and> fst (handleStart E pr p)
                    = Inl (Error (failMessage (fst (last new)) @ dec (res_status res))))
             \<and> status (snd (handleStart E pr p)) = Transcribing
             \<and> downloadUrl (snd (handleStart E pr p)) = None)
        \<and> (\<forall>msg. fst (handleStart E pr p) = Inl (Error msg) \<longrightarrow>
              msg = ''Missing OpenAI API key'' \<or> msg = ''No video uploaded''
              \<or> msg = ''No segments produced'' \<or> (new \<noteq> [] \<and> nonSuccess (last new)))"
  proof (cases rule: handleStart_cases[of E pr p])
    case (segment e p1)
    then show ?thesis using handleStart_segment_summary[OF segment(1)]
      by (intro exI[of _ "[]"]) auto
  next
    case (nofiles inp p1)
    then show ?thesis using handleStart_segment_summary[OF nofiles(1)]
      by (intro exI[of _ "[]"]) auto
  next
    case (dub inp files p1 e p2)
    note s = handleStart_segment_summary[OF dub(1)]
    from handleStart_dub_summary[OF dub(3) dub(2)] obtain new where n:
      "status p2 = Transcribing" "downloadUrl p2 = downloadUrl p1"
      "requests p2 = requests p1 @ new" "\<forall>c \<in> set (butlast new). \<not> nonSuccess c"
      "\<forall>msg. e = Error msg \<longrightarrow>
            new \<noteq> [] \<and> (\<exists>res. snd (last new) = Some res \<and> \<not> res_ok res
               \<and> msg = failMessage (fst (last new)) @ dec (res_status res))"
      "(\<forall>msg. e \<noteq> Error msg) \<longrightarrow> (\<forall>c \<in> set new. \<not> nonSuccess c)"
      by auto
    have last_fail: "new \<noteq> [] \<and> nonSuccess (last new) \<longrightarrow>
        (\<exists>res. snd (last new) = Some res \<and> \<not> res_ok res
        \<and> e = Error (failMessage (fst (last new)) @ dec (res_status res)))"
    proof (cases "\<exists>msg. e = Error msg")
      case True
      then show ?thesis using n(5) by auto
    next
      case False
      then have "new \<noteq> [] \<longrightarrow> \<not> nonSuccess (last new)" using n(6) by simp
      then show ?thesis by blast
    qed
    have only_then: "\<forall>msg. e = Error msg \<longrightarrow> new \<noteq> [] \<and> nonSuccess (last new)"
      using n(5) by (auto simp: nonSuccess_def)
    show ?thesis
      using dub(4) s n(1,2,3,4) last_fail only_then
      by (intro exI[of _ new]) auto
  next
    case (mux inp files p1 names p2 r p3)
    note s = handleStart_segment_summary[OF mux(1)]
    from handleStart_dub_summary[OF mux(3) mux(2)] obtain new where n:
      "requests p2 = requests p1 @ new" "\<forall>c \<in> set new. \<not> nonSuccess c"
      by auto
    note m = handleStart_mux_summary[OF mux(4)]
    have "\<forall>c \<in> set (butlast new). \<not> nonSuccess c" using n(2) by (auto dest: in_set_butlastD)
    moreover have "\<not> (new \<noteq> [] \<and> nonSuccess (last new))" using n(2) by auto
    ultimately show ?thesis using mux(5) s n(1) m
      by (intro exI[of _ new]) auto
  qed
  show ?thesis using run transcribe_iff(1)[of E] translate_iff(1)[of E] tts_iff(1)[of E]
    by (intro conjI allI) blast+
qed

theorem service_failure_aborts_witness:
  "fst (handleStart failingEnv fiveProps (loadedPage [])) = Inl (Error ''Transcription failed: 401'')
   \<and> status (snd (handleStart failingEnv fiveProps (loadedPage []))) = Transcribing
   \<and> downloadUrl (snd (handleStart failingEnv fiveProps (loadedPage []))) = None"
proof -
  let ?X = "handleStart failingEnv fiveProps (loadedPage [])"
  from service_failure_aborts[of failingEnv fiveProps "loadedPage []", THEN conjunct2,
      THEN conjunct2, THEN conjunct2]
  obtain new where n:
    "requests (snd ?X) = requests (loadedPage []) @ new"
    "new \<noteq> [] \<and> nonSuccess (last new) \<longrightarrow>
       (\<exists>res. snd (last new) = Some res \<and> \<not> res_ok res
          \<and> fst ?X = Inl (Error (failMessage (fst (last new)) @ dec (res_status res))))
       \<and> status (snd ?X) = Transcribing \<and> downloadUrl (snd ?X) = None"
    by blast
  have e: "requests (loadedPage []) = []" by (simp add: loadedPage_def initialPage_def)
  have l: "requests (snd ?X) \<noteq> [] \<and> last (requests (snd ?X)) = (Transcription ''sk'' ''c'', Some unauthorized)"
    by code_simp
  have new: "new \<noteq> []" "last new = (Transcription ''sk'' ''c'', Some unauthorized)"
    using n(1) e l by simp_all
  have f: "nonSuccess (last new)" by (simp add: new nonSuccess_def unauthorized_def)
  have d: "dec 401 = ''401''" by code_simp
  from n(2) new(1) f have
    "(\<exists>res. snd (last new) = Some res
          \<and> fst ?X = Inl (Error (failMessage (fst (last new)) @ dec (res_status res))))
       \<and> status (snd ?X) = Transcribing \<and> downloadUrl (snd ?X) = None"
    by blast
  then show ?thesis by (auto simp: new unauthorized_def d)
qed

section \<open>No segments\<close>




section \<open>A translation without content\<close>

text \<open>
  C7, as amended. When the translation service answers with success and a JSON body other
  than \<^verbatim>\<open>null\<close> whose \<^verbatim>\<open>choices[0].message.content\<close> is missing, \<^verbatim>\<open>null\<close> or empty,
  \<^verbatim>\<open>translateWithOpenAI\<close> returns the empty string without raising and without a second
  request. In the three calls for a segment (lines 141 to 148), when the transcription
  succeeded and the translation was answered so, the next request is the speech request
  for the empty string, and the outcome of the three calls is the outcome of that request.
  The requests of a pass of the loop body are the requests of these three calls on the
  audio it read.
\<close>

theorem empty_translation_passed_on:
  "(\<forall>k tx l q r d.
       fetch E (length (requests q)) (ChatCompletion k (systemPrompt l) tx) = Some r
       \<and> res_ok r \<and> res_json r = Some d \<and> \<not> nullish d
       \<and> contentOf (member d ''choices'') \<in> {JUndefined, JNull, JStr []}
     \<longrightarrow> translateWithOpenAI E k tx l q
           = (Inr (JStr []),
              q\<lparr>requests := requests q @ [(ChatCompletion k (systemPrompt l) tx, Some r)]\<rparr>))
   \<and> (\<forall>audio q r1 d1 r2 d2.
       fetch E (length (requests q)) (Transcription (apiKey pr) audio) = Some r1
       \<and> res_ok r1 \<and> res_json r1 = Some d1 \<and> \<not> nullish d1
       \<and> fetch E (Suc (length (requests q)))
            (ChatCompletion (apiKey pr) (systemPrompt (targetLang pr)) (member d1 ''text''))
          = Some r2
       \<and> res_ok r2 \<and> res_json r2 = Some d2 \<and> \<not> nullish d2
       \<and> contentOf (member d2 ''choices'') \<in> {JUndefined, JNull, JStr []}
     \<longrightarrow> requests (snd (transcribeTranslateTTS E pr audio q))
           = requests q @
             [(Transcription (apiKey pr) audio, Some r1),
              (ChatCompletion (apiKey pr) (systemPrompt (targetLang pr)) (member d1 ''text''), Some r2),
              (Speech (apiKey pr) (JStr []) (voice pr),
               fetch E (Suc (Suc (length (requests q)))) (Speech (apiKey pr) (JStr []) (voice pr)))]
         \<and> fst (transcribeTranslateTTS E pr audio q)
           = (case fetch E (Suc (Suc (length (requests q)))) (Speech (apiKey pr) (JStr []) (voice pr)) of
                None \<Rightarrow> Inl FetchRejected
              | Some r3 \<Rightarrow> if res_ok r3 then Inr (res_arrayBuffer r3)
                           else Inl (Error (''TTS failed: '' @ dec (res_status r3)))))
   \<and> (\<forall>seg q. requests (snd (dubSegment E pr seg q))
        = (case callResult (readFile seg) (ffmpeg q) of
             Inl e \<Rightarrow> requests q
           | Inr audio \<Rightarrow> requests (snd (transcribeTranslateTTS E pr audio q))))"
proof (intro conjI allI impI)
  fix k tx l and q :: page and r d
  assume "fetch E (length (requests q)) (ChatCompletion k (systemPrompt l) tx) = Some r
       \<and> res_ok r \<and> res_json r = Some d \<and> \<not> nullish d
       \<and> contentOf (member d ''choices'') \<in> {JUndefined, JNull, JStr []}"
  then show "translateWithOpenAI E k tx l q
           = (Inr (JStr []),
              q\<lparr>requests := requests q @ [(ChatCompletion k (systemPrompt l) tx, Some r)]\<rparr>)"
    by (simp add: svc_defs prim_defs logicalOr_falsy)
next
  fix audio and q :: page and r1 d1 r2 d2
  assume a: "fetch E (length (requests q)) (Transcription (apiKey pr) audio) = Some r1
       \<and> res_ok r1 \<and> res_json r1 = Some d1 \<and> \<not> nullish d1
       \<and> fetch E (Suc (length (requests q)))
            (ChatCompletion (apiKey pr) (systemPrompt (targetLang pr)) (member d1 ''text''))
          = Some r2
       \<and> res_ok r2 \<and> res_json r2 = Some d2 \<and> \<not> nullish d2
       \<and> contentOf (member d2 ''choices'') \<in> {JUndefined, JNull, JStr []}"
  then show "requests (snd (transcribeTranslateTTS E pr audio q))
           = requests q @
             [(Transcription (apiKey pr) audio, Some r1),
              (ChatCompletion (apiKey pr) (systemPrompt (targetLang pr)) (member d1 ''text''), Some r2),
              (Speech (apiKey pr) (JStr []) (voice pr),
               fetch E (Suc (Suc (length (requests q)))) (Speech (apiKey pr) (JStr []) (voice pr)))]"
    by (simp add: svc_defs prim_defs logicalOr_falsy split: option.splits)
  from a show "fst (transcribeTranslateTTS E pr audio q)
           = (case fetch E (Suc (Suc (length (requests q)))) (Speech (apiKey pr) (JStr []) (voice pr)) of
                None \<Rightarrow> Inl FetchRejected
              | Some r3 \<Rightarrow> if res_ok r3 then Inr (res_arrayBuffer r3)
                           else Inl (Error (''TTS failed: '' @ dec (res_status r3))))"
    by (simp add: svc_defs prim_defs logicalOr_falsy split: option.splits)
next
  fix seg q
  show "requests (snd (dubSegment E pr seg q))
        = (case callResult (readFile seg) (ffmpeg q) of
             Inl e \<Rightarrow> requests q
           | Inr audio \<Rightarrow> requests (snd (transcribeTranslateTTS E pr audio q)))"
  proof (cases "ffmpeg q")
    case (Bound inst)
    then show ?thesis
      by (auto simp: dubSegment_def prim_defs svc_defs callResult_def split: option.splits if_splits)
  qed (simp_all add: dubSegment_def prim_defs callResult_def)
qed

theorem empty_translation_passed_on_witness:
  "fst (translateWithOpenAI noContentEnv ''sk'' (JStr ''hola'') ''es'' initialPage) = Inr (JStr [])
   \<and> map fst (requests (snd (transcribeTranslateTTS noContentEnv demoProps ''a'' initialPage)))
     = [Transcription ''sk'' ''a'',
        ChatCompletion ''sk'' (systemPrompt ''es'') (JStr ''a''),
        Speech ''sk'' (JStr []) Alloy]"
proof -
  let ?d1 = "JObj [(''text'', JStr ''a'')]"
  have r: "requests initialPage = []" by (simp add: initialPage_def)
  have c: "contentOf (member (JObj []) ''choices'') \<in> {JUndefined, JNull, JStr []}"
    by (simp add: contentOf_def nullish_def)
  have t0: "fetch noContentEnv (length (requests initialPage))
               (ChatCompletion ''sk'' (systemPrompt ''es'') (JStr ''hola''))
             = Some (okResponse (Some (JObj [])) [])
     \<and> res_ok (okResponse (Some (JObj [])) [])
     \<and> res_json (okResponse (Some (JObj [])) []) = Some (JObj []) \<and> \<not> nullish (JObj [])
     \<and> contentOf (member (JObj []) ''choices'') \<in> {JUndefined, JNull, JStr []}"
    using c by (simp add: noContentEnv_def noContentFetch_def demoEnv_def okResponse_def nullish_def)
  have t12: "fetch noContentEnv (length (requests initialPage)) (Transcription (apiKey demoProps) ''a'')
      = Some (okResponse (Some ?d1) [])
     \<and> res_ok (okResponse (Some ?d1) []) \<and> res_json (okResponse (Some ?d1) []) = Some ?d1
     \<and> \<not> nullish ?d1
     \<and> fetch noContentEnv (Suc (length (requests initialPage)))
               (ChatCompletion (apiKey demoProps) (systemPrompt (targetLang demoProps)) (member ?d1 ''text''))
             = Some (okResponse (Some (JObj [])) [])
     \<and> res_ok (okResponse (Some (JObj [])) [])
     \<and> res_json (okResponse (Some (JObj [])) []) = Some (JObj []) \<and> \<not> nullish (JObj [])
     \<and> contentOf (member (JObj []) ''choices'') \<in> {JUndefined, JNull, JStr []}"
    using c by (simp add: noContentEnv_def noContentFetch_def demoEnv_def demoFetch_def okResponse_def
        nullish_def demoProps_def)
  note t = empty_translation_passed_on[of noContentEnv demoProps]
  from t[THEN conjunct1, rule_format, OF t0]
  have 1: "fst (translateWithOpenAI noContentEnv ''sk'' (JStr ''hola'') ''es'' initialPage) = Inr (JStr [])"
    by simp
  from t[THEN conjunct2, THEN conjunct1, rule_format, OF t12, THEN conjunct1]
  have 2: "map fst (requests (snd (transcribeTranslateTTS noContentEnv demoProps ''a'' initialPage)))
     = [Transcription ''sk'' ''a'',
        ChatCompletion ''sk'' (systemPrompt ''es'') (JStr ''a''),
        Speech ''sk'' (JStr []) Alloy]"
    by (simp add: r demoProps_def)
  show ?thesis using 1 2 by (rule conjI)
qed

text \<open>
  C7 as stated fails for a success answer whose body is \<^verbatim>\<open>null\<close> or is not JSON: the
  content is missing, and \<^verbatim>\<open>translateWithOpenAI\<close> raises, a \<^verbatim>\<open>TypeError\<close> at
  \<^verbatim>\<open>data.choices\<close> or the rejection of \<^verbatim>\<open>res.json()\<close>, and no speech request follows.
\<close>

theorem null_body_counterexample:
  "fetch nullBodyEnv 0 (ChatCompletion ''sk'' (systemPrompt ''es'') (JStr ''hola''))
     = Some \<lparr>res_ok = True, res_status = 200, res_json = Some JNull, res_arrayBuffer = []\<rparr>
   \<and> fst (translateWithOpenAI nullBodyEnv ''sk'' (JStr ''hola'') ''es'' initialPage) = Inl TypeError
   \<and> fetch noJsonEnv 0 (ChatCompletion ''sk'' (systemPrompt ''es'') (JStr ''hola''))
     = Some \<lparr>res_ok = True, res_status = 200, res_json = None, res_arrayBuffer = []\<rparr>
   \<and> fst (translateWithOpenAI noJsonEnv ''sk'' (JStr ''hola'') ''es'' initialPage) = Inl JsonRejected
   \<and> map fst (requests (snd (transcribeTranslateTTS nullBodyEnv demoProps ''a'' initialPage)))
     = [Transcription ''sk'' ''a'', ChatCompletion ''sk'' (systemPrompt ''es'') (JStr ''a'')]"
  by code_simp

section \<open>The download handle\<close>

text \<open>
  C10. \<^verbatim>\<open>handleStart\<close> clears the download handle first (line 91) and sets it only
  after the last step that can fail (line 190), together with the status \<^verbatim>\<open>done\<close>: a
  run that returns normally ends in \<^verbatim>\<open>done\<close> with a handle, and a run that fails at any
  stage ends with no handle, whatever handle an earlier run had left.
\<close>

theorem downloadUrl_only_when_done:
  "(fst (handleStart E pr p) = Inr () \<longrightarrow>
      status (snd (handleStart E pr p)) = Done \<and> downloadUrl (snd (handleStart E pr p)) \<noteq> None)
   \<and> (fst (handleStart E pr p) \<noteq> Inr () \<longrightarrow> downloadUrl (snd (handleStart E pr p)) = None)"
proof (cases rule: handleStart_cases[of E pr p])
  case (segment e p1)
  then show ?thesis using handleStart_segment_summary[OF segment(1)] by simp
next
  case (nofiles inp p1)
  then show ?thesis using handleStart_segment_summary[OF nofiles(1)] by simp
next
  case (dub inp files p1 e p2)
  then show ?thesis
    using handleStart_segment_summary[OF dub(1)] handleStart_dub_summary[OF dub(3) dub(2)] by simp
next
  case (mux inp files p1 names p2 r p3)
  then show ?thesis
    using handleStart_segment_summary[OF mux(1)] handleStart_dub_summary[OF mux(3) mux(2)]
      handleStart_mux_summary[OF mux(4)] by auto
qed

theorem downloadUrl_only_when_done_witness:
  "fst (handleStart demoEnv demoProps (loadedPage [])) = Inr ()
   \<and> status (snd (handleStart demoEnv demoProps (loadedPage []))) = Done
   \<and> downloadUrl (snd (handleStart demoEnv demoProps (loadedPage []))) \<noteq> None
   \<and> fst (handleStart failingEnv fiveProps ((loadedPage [])\<lparr>downloadUrl := Some ''blob:old''\<rparr>)) \<noteq> Inr ()
   \<and> downloadUrl (snd (handleStart failingEnv fiveProps
         ((loadedPage [])\<lparr>downloadUrl := Some ''blob:old''\<rparr>))) = None"
proof -
  have a: "fst (handleStart demoEnv demoProps (loadedPage [])) = Inr ()"
    by code_simp
  have b: "fst (handleStart failingEnv fiveProps ((loadedPage [])\<lparr>downloadUrl := Some ''blob:old''\<rparr>))
      \<noteq> Inr ()"
    by code_simp
  show ?thesis
    using a b downloadUrl_only_when_done[of demoEnv demoProps "loadedPage []"]
      downloadUrl_only_when_done[of failingEnv fiveProps
        "(loadedPage [])\<lparr>downloadUrl := Some ''blob:old''\<rparr>"]
    by blast
qed

end
